theory Spec2Isabelle
  imports Complex_Main "HOL-Library.Multiset"
begin

section \<open>JavaScript values used by MiningVizApp\<close>

text \<open>
  The TypeScript type \<open>number\<close>.  A finite value is the exact rational it denotes;
  the three non-finite values of IEEE 754 are constructors of their own, because the
  program tests for \<open>NaN\<close> (\<open>isNaN\<close>), starts its minimum search at \<open>Infinity\<close>
  and \<open>parseFloat\<close> produces all of them.  Rounding to binary64, its range (a
  literal such as \<open>1e309\<close> stays finite here, where the program gets \<open>Infinity\<close>)
  and the sign of zero are not part of the model; whether a value is \<open>NaN\<close> does
  not depend on them.
\<close>

datatype number = Fin rat | PInf | NInf | NaN

fun isNaN :: "number \<Rightarrow> bool" where
  "isNaN NaN = True"
| "isNaN _ = False"

fun isFinite :: "number \<Rightarrow> bool" where
  "isFinite (Fin _) = True"
| "isFinite _ = False"

text \<open>Unary minus, \<open>+\<close>, \<open>-\<close>, \<open>*\<close>, \<open>/\<close> and \<open>>=\<close> on numbers.\<close>

fun js_neg :: "number \<Rightarrow> number" where
  "js_neg (Fin a) = Fin (- a)"
| "js_neg PInf = NInf"
| "js_neg NInf = PInf"
| "js_neg NaN = NaN"

fun js_add :: "number \<Rightarrow> number \<Rightarrow> number" where
  "js_add NaN _ = NaN"
| "js_add _ NaN = NaN"
| "js_add (Fin a) (Fin b) = Fin (a + b)"
| "js_add PInf NInf = NaN"
| "js_add NInf PInf = NaN"
| "js_add PInf _ = PInf"
| "js_add _ PInf = PInf"
| "js_add NInf _ = NInf"
| "js_add _ NInf = NInf"

definition js_sub :: "number \<Rightarrow> number \<Rightarrow> number" where
  "js_sub a b = js_add a (js_neg b)"

text \<open>The sign of a number that is not \<open>NaN\<close>: \<open>-1\<close>, \<open>0\<close> or \<open>1\<close>.\<close>

fun js_sign :: "number \<Rightarrow> int" where
  "js_sign (Fin a) = (if a < 0 then - 1 else if a = 0 then 0 else 1)"
| "js_sign PInf = 1"
| "js_sign NInf = - 1"
| "js_sign NaN = 0"

definition signed_inf :: "int \<Rightarrow> number" where
  "signed_inf sg = (if sg = 0 then NaN else if sg < 0 then NInf else PInf)"

fun js_mul :: "number \<Rightarrow> number \<Rightarrow> number" where
  "js_mul NaN _ = NaN"
| "js_mul _ NaN = NaN"
| "js_mul (Fin a) (Fin b) = Fin (a * b)"
| "js_mul a b = signed_inf (js_sign a * js_sign b)"

fun js_div :: "number \<Rightarrow> number \<Rightarrow> number" where
  "js_div NaN _ = NaN"
| "js_div _ NaN = NaN"
| "js_div (Fin a) (Fin b) = (if b = 0 then signed_inf (js_sign (Fin a)) else Fin (a / b))"
| "js_div (Fin a) _ = Fin 0"
| "js_div a (Fin b) = signed_inf (js_sign a * (if b < 0 then - 1 else 1))"
| "js_div _ _ = NaN"

fun js_ge :: "number \<Rightarrow> number \<Rightarrow> bool" where
  "js_ge NaN _ = False"
| "js_ge _ NaN = False"
| "js_ge (Fin a) (Fin b) = (b \<le> a)"
| "js_ge PInf _ = True"
| "js_ge _ NInf = True"
| "js_ge _ _ = False"

text \<open>\<open>Math.min\<close> of two arguments: \<open>NaN\<close> if either is, the smaller one otherwise.\<close>

fun Math_min :: "number \<Rightarrow> number \<Rightarrow> number" where
  "Math_min NaN _ = NaN"
| "Math_min _ NaN = NaN"
| "Math_min (Fin a) (Fin b) = Fin (min a b)"
| "Math_min NInf _ = NInf"
| "Math_min _ NInf = NInf"
| "Math_min PInf b = b"
| "Math_min a PInf = a"

subsection \<open>Strings\<close>

text \<open>
  \<open>String.prototype.split\<close> with a one-character separator: the pieces between the
  separators, one piece more than there are separators (so never an empty array).
\<close>

fun split :: "char \<Rightarrow> string \<Rightarrow> string list" where
  "split sep [] = [[]]"
| "split sep (c # cs) =
     (if c = sep then [] # split sep cs
      else (case split sep cs of
              [] \<Rightarrow> [[c]]
            | piece # pieces \<Rightarrow> (c # piece) # pieces))"

text \<open>
  The white space and line terminators that \<open>trim\<close> and \<open>parseFloat\<close> strip, among
  the code units below 256: TAB, LF, VT, FF, CR, SP and NBSP.
\<close>

definition isWhiteSpace :: "char \<Rightarrow> bool" where
  "isWhiteSpace c =
     (c \<in> set [CHR 0x09, CHR 0x0A, CHR 0x0B, CHR 0x0C, CHR 0x0D, CHR 0x20, CHR 0xA0])"

definition trim :: "string \<Rightarrow> string" where
  "trim s = rev (dropWhile isWhiteSpace (rev (dropWhile isWhiteSpace s)))"

text \<open>\<open>Array.prototype.indexOf\<close>: the first index holding the value, or \<open>-1\<close>.\<close>

fun indexOf :: "'a list \<Rightarrow> 'a \<Rightarrow> int" where
  "indexOf [] v = - 1"
| "indexOf (x # xs) v =
     (if x = v then 0 else (let k = indexOf xs v in if k < 0 then - 1 else k + 1))"

subsection \<open>parseFloat\<close>

text \<open>
  \<open>parseFloat\<close> strips leading white space and reads the longest prefix that is a
  \<open>StrDecimalLiteral\<close>: an optional sign, then \<open>Infinity\<close> or decimal digits with an
  optional fraction and an optional exponent.  What follows the prefix is ignored;
  without such a prefix the result is \<open>NaN\<close>.
\<close>

definition isDigit :: "char \<Rightarrow> bool" where
  "isDigit c = (c \<in> set ''0123456789'')"

definition digit_value :: "char \<Rightarrow> nat" where
  "digit_value c = of_char c - 48"

definition digits_value :: "string \<Rightarrow> nat" where
  "digits_value ds = foldl (\<lambda>n c. 10 * n + digit_value c) 0 ds"

text \<open>The exponent part at the head of a string: its value, \<open>0\<close> when there is none.\<close>

definition ExponentPart :: "string \<Rightarrow> int" where
  "ExponentPart s =
     (case s of
        [] \<Rightarrow> 0
      | e # r \<Rightarrow>
          if e = CHR ''e'' \<or> e = CHR ''E'' then
            (case r of
               [] \<Rightarrow> 0
             | sg # r' \<Rightarrow>
                 if sg = CHR ''-'' then
                   (if takeWhile isDigit r' = [] then 0
                    else - int (digits_value (takeWhile isDigit r')))
                 else if sg = CHR ''+'' then int (digits_value (takeWhile isDigit r'))
                 else int (digits_value (takeWhile isDigit r)))
          else 0)"

definition scale10 :: "rat \<Rightarrow> int \<Rightarrow> rat" where
  "scale10 m e = (if 0 \<le> e then m * 10 ^ nat e else m / 10 ^ nat (- e))"

definition StrUnsignedDecimalLiteral :: "string \<Rightarrow> number" where
  "StrUnsignedDecimalLiteral t =
     (if take 8 t = ''Infinity'' then PInf
      else
        let ip = takeWhile isDigit t;
            r1 = dropWhile isDigit t;
            dot = (r1 \<noteq> [] \<and> hd r1 = CHR ''.'');
            fp = (if dot then takeWhile isDigit (tl r1) else []);
            r2 = (if dot then dropWhile isDigit (tl r1) else r1)
        in if ip = [] \<and> fp = [] then NaN
           else Fin (scale10
                  (of_nat (digits_value ip) + of_nat (digits_value fp) / 10 ^ length fp)
                  (ExponentPart r2)))"

definition parseFloat :: "string \<Rightarrow> number" where
  "parseFloat s =
     (let t = dropWhile isWhiteSpace s in
      case t of
        [] \<Rightarrow> NaN
      | c # r \<Rightarrow>
          if c = CHR ''-'' then js_neg (StrUnsignedDecimalLiteral r)
          else if c = CHR ''+'' then StrUnsignedDecimalLiteral r
          else StrUnsignedDecimalLiteral t)"

section \<open>The dataset parser\<close>

record BlockData =
  centroid_x :: number
  centroid_y :: number
  centroid_z :: number
  dim_x :: number
  dim_y :: number
  dim_z :: number
  rock :: string

text \<open>The object literal of the loop body: the block read from the fields of one row.\<close>

definition make_block :: "int \<Rightarrow> string list \<Rightarrow> BlockData" where
  "make_block rockIndex values = \<lparr>
     centroid_x = parseFloat (values ! 0),
     centroid_y = parseFloat (values ! 1),
     centroid_z = parseFloat (values ! 2),
     dim_x = parseFloat (values ! 3),
     dim_y = parseFloat (values ! 4),
     dim_z = parseFloat (values ! 5),
     rock = (if 0 \<le> rockIndex \<and> rockIndex < int (length values)
             then values ! nat rockIndex else ''unknown'') \<rparr>"

text \<open>
  The body of the loop of \<open>parseCSV\<close> for one line: \<open>None\<close> where the source
  continues without pushing, \<open>Some block\<close> where it pushes.  Nothing in the
  \<open>try\<close> block can throw: the six reads are in range after the length test.
\<close>

definition parse_line :: "int \<Rightarrow> string \<Rightarrow> BlockData option" where
  "parse_line rockIndex line =
     (if trim line = [] then None
      else
        let values = split CHR '','' line in
        if length values < 6 then None
        else
          let block = make_block rockIndex values
          in if isNaN (centroid_x block) \<or> isNaN (dim_x block) then None
             else Some block)"

function parseCSV_loop :: "string list \<Rightarrow> int \<Rightarrow> nat \<Rightarrow> BlockData list \<Rightarrow> BlockData list" where
  "parseCSV_loop lines rockIndex i data =
     (if i < length lines then
        (case parse_line rockIndex (lines ! i) of
           None \<Rightarrow> parseCSV_loop lines rockIndex (i + 1) data
         | Some block \<Rightarrow> parseCSV_loop lines rockIndex (i + 1) (data @ [block]))
      else data)"
  by pat_completeness auto
termination
  by (relation "measure (\<lambda>(lines, rockIndex, i, data). length lines - i)") auto

declare parseCSV_loop.simps [simp del]

definition rockIndex_of :: "string list \<Rightarrow> int" where
  "rockIndex_of lines = indexOf (split CHR '','' (lines ! 0)) ''rock''"

definition parseCSV :: "string \<Rightarrow> BlockData list" where
  "parseCSV csvText =
     (let lines = split CHR 0x0A csvText;
          rockIndex = rockIndex_of lines
      in parseCSV_loop lines rockIndex 3 [])"

section \<open>The scene and the application object\<close>

text \<open>
  \<open>THREE.Vector3\<close> with its fields \<open>x\<close>, \<open>y\<close>, \<open>z\<close>, the three keys of
  \<open>clipPlanes\<close>, a \<open>THREE.Color\<close> as the arguments it was made from, and a material.
  Materials are shared by the meshes of one rock type and mutated in place by the
  clipping code, so meshes hold the index of their material in a store.  A material is
  created with no clipping planes (three.js stores \<open>null\<close>; the model has the empty
  list), and assigning \<open>needsUpdate = true\<close> bumps its version.
\<close>

record Vector3 =
  vec_x :: number
  vec_y :: number
  vec_z :: number

datatype plane = XY | YZ | XZ

datatype Color = HSL number number number | Hex nat

record Material =
  color :: Color
  clippingPlanes :: "plane list"
  clipIntersection :: bool
  version :: nat

definition new_Material :: "Color \<Rightarrow> Material" where
  "new_Material c = \<lparr> color = c, clippingPlanes = [], clipIntersection = False, version = 0 \<rparr>"

text \<open>
  The scene graph.  A \<open>Mesh\<close> has a geometry, a position and a material; a
  \<open>PlaneHelper\<close> is a line object whose one child is a mesh (the translucent square
  three.js draws); \<open>Other\<close> stands for the lights, grid, axes and gizmo lines, none of
  which is an instance of \<open>THREE.Mesh\<close>.
\<close>

datatype Geometry = BoxGeometry number number number | BufferGeometry

datatype Object3D =
    Mesh Geometry Vector3 nat
  | Group "Object3D list"
  | PlaneHelper plane "Object3D list"
  | Other

text \<open>\<open>Object3D.traverse\<close>: the callback runs on the object, then on its descendants.\<close>

fun descendants :: "Object3D \<Rightarrow> Object3D list" where
  "descendants (Mesh g p m) = [Mesh g p m]"
| "descendants (Group cs) = Group cs # concat (map descendants cs)"
| "descendants (PlaneHelper pl cs) = PlaneHelper pl cs # concat (map descendants cs)"
| "descendants Other = [Other]"

text \<open>The geometry and position of a mesh: what it is apart from its material.\<close>

fun mesh_shape :: "Object3D \<Rightarrow> (Geometry \<times> Vector3) option" where
  "mesh_shape (Mesh g p m) = Some (g, p)"
| "mesh_shape _ = None"

definition traverse :: "(Object3D \<Rightarrow> 'a \<Rightarrow> 'a) \<Rightarrow> Object3D list \<Rightarrow> 'a \<Rightarrow> 'a" where
  "traverse callback scn st = fold callback (concat (map descendants scn)) st"

text \<open>The material indices of the meshes of a scene, in traversal order.\<close>

fun mesh_material :: "Object3D \<Rightarrow> nat list" where
  "mesh_material (Mesh g p m) = [m]"
| "mesh_material _ = []"

definition scene_mesh_materials :: "Object3D list \<Rightarrow> nat list" where
  "scene_mesh_materials scn = concat (map mesh_material (concat (map descendants scn)))"

text \<open>What a \<open>catch\<close> can receive here: a rejected fetch, or a \<open>TypeError\<close>.\<close>

datatype exn = NetworkError | TypeError

record MiningVizApp =
  scene :: "Object3D list"
  materials :: "nat \<Rightarrow> Material"
  material_count :: nat
  cameraPosition :: Vector3
  modelCenter :: Vector3
  coordinateOffset :: Vector3
  clipPlanes :: "plane \<Rightarrow> number"
  clipPlaneHelpers :: "plane \<Rightarrow> bool option"
  activeClipPlane :: "plane option"
  clipPosition :: number
  localClippingEnabled :: bool
  console_error :: "string list"

text \<open>
  The object after its constructor has run: the gizmos of the controls, two lights, the
  grid and the axes are in the scene; clipping is off and no plane is active.
  \<open>clipPlaneHelpers\<close> maps a key to the \<open>visible\<close> flag of its helper;
  \<open>console_error\<close> collects the messages of \<open>console.error\<close>.
\<close>

definition MiningVizApp_new :: MiningVizApp where
  "MiningVizApp_new = \<lparr>
     scene = [Group [Other, Other, Other], Other, Other, Other, Other],
     materials = (\<lambda>_. new_Material (Hex 0xffffff)),
     material_count = 0,
     cameraPosition = \<lparr> vec_x = Fin 0, vec_y = Fin 0, vec_z = Fin 1000 \<rparr>,
     modelCenter = \<lparr> vec_x = Fin 0, vec_y = Fin 0, vec_z = Fin 0 \<rparr>,
     coordinateOffset = \<lparr> vec_x = Fin 0, vec_y = Fin 0, vec_z = Fin 0 \<rparr>,
     clipPlanes = (\<lambda>_. Fin 0),
     clipPlaneHelpers = (\<lambda>_. None),
     activeClipPlane = None,
     clipPosition = Fin 0,
     localClippingEnabled = False,
     console_error = [] \<rparr>"

section \<open>Coordinate offset\<close>

definition computeCoordinateOffset :: "BlockData list \<Rightarrow> MiningVizApp \<Rightarrow> MiningVizApp" where
  "computeCoordinateOffset blocks app =
     (let (minX, minY, minZ) =
            fold (\<lambda>block (minX, minY, minZ).
                    (Math_min minX (centroid_x block),
                     Math_min minY (centroid_y block),
                     Math_min minZ (centroid_z block)))
                 blocks (PInf, PInf, PInf)
      in app \<lparr> coordinateOffset := \<lparr> vec_x = minX, vec_y = minY, vec_z = minZ \<rparr> \<rparr>)"

section \<open>Building the block model\<close>

text \<open>\<open>[...new Set(xs)]\<close>: the distinct elements in the order of their first occurrence.\<close>

definition Set_spread :: "'a list \<Rightarrow> 'a list" where
  "Set_spread xs = foldl (\<lambda>acc x. if x \<in> set acc then acc else acc @ [x]) [] xs"

definition rockTypes_of :: "BlockData list \<Rightarrow> string list" where
  "rockTypes_of blocks = Set_spread (map rock blocks)"

text \<open>The \<open>Map\<close> filled by \<open>rockTypes.forEach((rock, i) => ...)\<close>.\<close>

definition rockColors_of :: "string list \<Rightarrow> (string \<Rightarrow> Color option)" where
  "rockColors_of rockTypes =
     fold (\<lambda>(i, rock) rockColors.
             rockColors(rock \<mapsto>
               HSL (js_div (Fin (of_nat i)) (Fin (of_nat (length rockTypes)))) (Fin 0.8) (Fin 0.6)))
          (enumerate 0 rockTypes) Map.empty"

definition maxBlocks :: nat where
  "maxBlocks = 5000"

definition visibleBlocks_of :: "BlockData list \<Rightarrow> BlockData list" where
  "visibleBlocks_of blocks =
     (if length blocks > maxBlocks then take maxBlocks blocks else blocks)"

text \<open>
  \<open>blocksByRock\<close> is an object literal \<open>{}\<close>, so a read of a key it does not own falls
  through to \<open>Object.prototype\<close>.  For the names below that read yields a function (or,
  for \<open>__proto__\<close>, the prototype object): a truthy value without a \<open>push\<close> method.  The
  source then skips the initialisation and the call of \<open>push\<close> throws a \<open>TypeError\<close>.
  The own properties are kept as an association list in creation order.
\<close>

definition Object_prototype_keys :: "string list" where
  "Object_prototype_keys =
     [''constructor'', ''__proto__'', ''hasOwnProperty'', ''isPrototypeOf'',
      ''propertyIsEnumerable'', ''toLocaleString'', ''toString'', ''valueOf'',
      ''__defineGetter__'', ''__defineSetter__'', ''__lookupGetter__'', ''__lookupSetter__'']"

fun set_property :: "(string \<times> 'v) list \<Rightarrow> string \<Rightarrow> 'v \<Rightarrow> (string \<times> 'v) list" where
  "set_property [] k v = [(k, v)]"
| "set_property ((k', v') # kvs) k v =
     (if k' = k then (k, v) # kvs else (k', v') # set_property kvs k v)"

fun group_by_rock ::
  "BlockData list \<Rightarrow> (string \<times> BlockData list) list \<Rightarrow> exn + (string \<times> BlockData list) list" where
  "group_by_rock [] blocksByRock = Inr blocksByRock"
| "group_by_rock (block # rest) blocksByRock =
     (case map_of blocksByRock (rock block) of
        Some arr \<Rightarrow> group_by_rock rest (set_property blocksByRock (rock block) (arr @ [block]))
      | None \<Rightarrow>
          if rock block \<in> set Object_prototype_keys then Inl TypeError
          else group_by_rock rest (set_property blocksByRock (rock block) [block]))"

text \<open>
  \<open>Object.entries\<close> lists the keys that are array indices first, in ascending numeric
  order, and the other keys after them in creation order.
\<close>

definition is_array_index :: "string \<Rightarrow> bool" where
  "is_array_index k =
     ((k = ''0'' \<or> (k \<noteq> [] \<and> list_all isDigit k \<and> hd k \<noteq> CHR ''0''))
      \<and> digits_value k < 2 ^ 32 - 1)"

definition Object_entries :: "(string \<times> 'v) list \<Rightarrow> (string \<times> 'v) list" where
  "Object_entries obj =
     sort_key (\<lambda>(k, v). digits_value k) (filter (\<lambda>(k, v). is_array_index k) obj)
     @ filter (\<lambda>(k, v). \<not> is_array_index k) obj"

definition scaleFactor :: number where
  "scaleFactor = Fin 0.7"

definition heightScaleFactor :: number where
  "heightScaleFactor = Fin 2"

text \<open>The box made for one block: geometry, then position, with the given material.\<close>

definition make_cube :: "Vector3 \<Rightarrow> nat \<Rightarrow> BlockData \<Rightarrow> Object3D" where
  "make_cube offset mat block =
     Mesh (BoxGeometry
             (js_mul (dim_x block) scaleFactor)
             (js_mul (js_mul (dim_z block) scaleFactor) heightScaleFactor)
             (js_mul (dim_y block) scaleFactor))
          \<lparr> vec_x = js_sub (centroid_x block) (vec_x offset),
            vec_y = js_mul (js_sub (centroid_z block) (vec_z offset)) heightScaleFactor,
            vec_z = js_sub (centroid_y block) (vec_y offset) \<rparr>
          mat"

text \<open>
  One round of \<open>Object.entries(blocksByRock).forEach\<close>: a new material for the rock
  type, and one cube per block of that type added to the group.
\<close>

definition add_rock_group ::
  "(string \<Rightarrow> Color option) \<Rightarrow> Vector3 \<Rightarrow> string \<times> BlockData list \<Rightarrow>
   (nat \<Rightarrow> Material) \<times> nat \<times> Object3D list \<Rightarrow> (nat \<Rightarrow> Material) \<times> nat \<times> Object3D list" where
  "add_rock_group rockColors offset entry acc =
     (case (entry, acc) of
        ((rockType, blocksOfType), (mats, n, cubes)) \<Rightarrow>
          let c = (case rockColors rockType of Some c \<Rightarrow> c | None \<Rightarrow> Hex 0xcccccc)
          in (mats(n := new_Material c), Suc n, cubes @ map (make_cube offset n) blocksOfType))"

definition centroid_sum :: "(BlockData \<Rightarrow> number) \<Rightarrow> number \<Rightarrow> BlockData list \<Rightarrow> number" where
  "centroid_sum coord off blocks = foldl (\<lambda>acc block. js_add acc (js_sub (coord block) off)) (Fin 0) blocks"

text \<open>
  \<open>createBlockModel\<close> returns the exception it threw, if any, and the object as it
  stands then: the model centre is already set when the grouping loop can throw.
\<close>

definition createBlockModel :: "BlockData list \<Rightarrow> MiningVizApp \<Rightarrow> exn option \<times> MiningVizApp" where
  "createBlockModel blocks app =
     (let off = coordinateOffset app;
          n = Fin (of_nat (length blocks));
          center = \<lparr> vec_x = js_div (centroid_sum centroid_x (vec_x off) blocks) n,
                     vec_y = js_div (centroid_sum centroid_z (vec_z off) blocks) n,
                     vec_z = js_div (centroid_sum centroid_y (vec_y off) blocks) n \<rparr>;
          app1 = app \<lparr> modelCenter := center \<rparr>;
          rockColors = rockColors_of (rockTypes_of blocks)
      in case group_by_rock (visibleBlocks_of blocks) [] of
           Inl e \<Rightarrow> (Some e, app1)
         | Inr blocksByRock \<Rightarrow>
             (case fold (add_rock_group rockColors off) (Object_entries blocksByRock)
                        (materials app1, material_count app1, []) of
                (mats, cnt, cubes) \<Rightarrow>
                  (None,
                   app1 \<lparr> materials := mats,
                          material_count := cnt,
                          scene := scene app1 @ [Group cubes],
                          cameraPosition :=
                            \<lparr> vec_x = js_add (vec_x center) (Fin 500),
                              vec_y = js_add (vec_y center) (Fin 500),
                              vec_z = js_add (vec_z center) (Fin 500) \<rparr> \<rparr>)))"

section \<open>Loading\<close>

text \<open>
  \<open>loadData\<close> after the fetch has settled: \<open>Inl\<close> for a rejected fetch, \<open>Inr\<close> for the
  text of the response.  Its \<open>try\<close> covers everything, so it always returns.
\<close>

definition loadData :: "exn + string \<Rightarrow> MiningVizApp \<Rightarrow> MiningVizApp" where
  "loadData fetched app =
     (case fetched of
        Inl e \<Rightarrow> app \<lparr> console_error := console_error app @ [''Failed to load or parse data:''] \<rparr>
      | Inr text \<Rightarrow>
          let data = parseCSV text in
          if length data > 0 then
            (case createBlockModel data (computeCoordinateOffset data app) of
               (Some e, app') \<Rightarrow>
                 app' \<lparr> console_error := console_error app' @ [''Failed to load or parse data:''] \<rparr>
             | (None, app') \<Rightarrow> app')
          else app \<lparr> console_error := console_error app @ [''No valid blocks found in data''] \<rparr>)"

section \<open>Clipping\<close>

text \<open>
  The callback both traversals pass: \<open>if (node instanceof THREE.Mesh)\<close>, assign to
  fields of \<open>node.material\<close>; any other node is left alone.
\<close>

definition on_mesh_material ::
  "(Material \<Rightarrow> Material) \<Rightarrow> Object3D \<Rightarrow> (nat \<Rightarrow> Material) \<Rightarrow> (nat \<Rightarrow> Material)" where
  "on_mesh_material assign node mats =
     (case node of
        Mesh g p m \<Rightarrow> mats(m := assign (mats m))
      | _ \<Rightarrow> mats)"

definition disableClipping :: "MiningVizApp \<Rightarrow> MiningVizApp" where
  "disableClipping app =
     app \<lparr> clipPlaneHelpers := (\<lambda>k. map_option (\<lambda>visible. False) (clipPlaneHelpers app k)),
           materials :=
             traverse (on_mesh_material
                         (\<lambda>material. material \<lparr> clippingPlanes := [],
                                                 version := Suc (version material) \<rparr>))
                      (scene app) (materials app),
           activeClipPlane := None,
           localClippingEnabled := False \<rparr>"

definition updateClipPlane :: "MiningVizApp \<Rightarrow> MiningVizApp" where
  "updateClipPlane app =
     (case activeClipPlane app of
        None \<Rightarrow> app
      | Some k \<Rightarrow>
          app \<lparr> clipPlanes := (clipPlanes app)(k := js_neg (clipPosition app)),
                clipPlaneHelpers :=
                  (case clipPlaneHelpers app k of
                     None \<Rightarrow> clipPlaneHelpers app
                   | Some visible \<Rightarrow> (clipPlaneHelpers app)(k \<mapsto> True)) \<rparr>)"

text \<open>
  \<open>setActiveClipPlane\<close> is private and called only by the three radio buttons built
  from \<open>planeLabels\<close>, so its argument is one of the three keys.
\<close>

definition setActiveClipPlane :: "plane \<Rightarrow> MiningVizApp \<Rightarrow> MiningVizApp" where
  "setActiveClipPlane k app =
     (let app1 = (disableClipping app) \<lparr> activeClipPlane := Some k \<rparr>;
          app2 = (case clipPlaneHelpers app1 k of
                    Some visible \<Rightarrow> app1
                  | None \<Rightarrow>
                      app1 \<lparr> clipPlaneHelpers := (clipPlaneHelpers app1)(k \<mapsto> True),
                             materials := (materials app1)
                               (material_count app1 := new_Material (Hex 0xff0000)),
                             material_count := Suc (material_count app1),
                             scene := scene app1 @
                               [PlaneHelper k
                                  [Mesh BufferGeometry
                                     \<lparr> vec_x = Fin 0, vec_y = Fin 0, vec_z = Fin 0 \<rparr>
                                     (material_count app1)]] \<rparr>);
          app3 = app2 \<lparr> materials :=
                   traverse (on_mesh_material
                               (\<lambda>material. material \<lparr> clippingPlanes := [k],
                                                       clipIntersection := False,
                                                       version := Suc (version material) \<rparr>))
                            (scene app2) (materials app2) \<rparr>
      in (updateClipPlane app3) \<lparr> localClippingEnabled := True \<rparr>)"

text \<open>The \<open>oninput\<close> handler of the position slider, given the slider's value.\<close>

definition positionSlider_oninput :: "string \<Rightarrow> MiningVizApp \<Rightarrow> MiningVizApp" where
  "positionSlider_oninput v app = updateClipPlane (app \<lparr> clipPosition := parseFloat v \<rparr>)"

text \<open>The three transitions of the clipping controls, and a run of them.\<close>

datatype clip_event = selectPlane plane | setOffset string | disable

fun clip_step :: "clip_event \<Rightarrow> MiningVizApp \<Rightarrow> MiningVizApp" where
  "clip_step (selectPlane k) app = setActiveClipPlane k app"
| "clip_step (setOffset v) app = positionSlider_oninput v app"
| "clip_step disable app = disableClipping app"

definition clip_run :: "clip_event list \<Rightarrow> MiningVizApp \<Rightarrow> MiningVizApp" where
  "clip_run events app = fold clip_step events app"

section \<open>First-occurrence order as the specification words it\<close>

text \<open>
  The distinct elements of a list in the order of their first occurrence, written
  directly: the head, then the same for the rest without the head's copies.
\<close>

fun first_occurrence_order :: "'a list \<Rightarrow> 'a list" where
  "first_occurrence_order [] = []"
| "first_occurrence_order (x # xs) = x # first_occurrence_order (filter (\<lambda>y. y \<noteq> x) xs)"

section \<open>The parser as the specification words it\<close>

text \<open>
  The row filter in the words of the specification: a row is kept when it is not
  blank, has six fields or more, and its first and fourth field parse as finite
  numbers.  \<open>parseCSV_spec\<close> keeps exactly those rows after the first three lines.
\<close>

definition spec_row_kept :: "string \<Rightarrow> bool" where
  "spec_row_kept line =
     (trim line \<noteq> [] \<and> 6 \<le> length (split CHR '','' line)
      \<and> isFinite (parseFloat (split CHR '','' line ! 0))
      \<and> isFinite (parseFloat (split CHR '','' line ! 3)))"

definition parseCSV_spec :: "string \<Rightarrow> BlockData list" where
  "parseCSV_spec csvText =
     (let lines = split CHR 0x0A csvText in
      map (\<lambda>line. make_block (rockIndex_of lines) (split CHR '','' line))
          (filter spec_row_kept (drop 3 lines)))"

text \<open>The filter the source applies: the two fields must not parse to \<open>NaN\<close>.\<close>

definition row_kept :: "string \<Rightarrow> bool" where
  "row_kept line =
     (trim line \<noteq> [] \<and> 6 \<le> length (split CHR '','' line)
      \<and> \<not> isNaN (parseFloat (split CHR '','' line ! 0))
      \<and> \<not> isNaN (parseFloat (split CHR '','' line ! 3)))"

section \<open>Properties of the parser\<close>

lemma split_not_Nil: "split sep s \<noteq> []"
  by (induction s) (auto split: list.splits)

lemma parseCSV_loop_map_filter:
  "parseCSV_loop lines rockIndex i data =
     data @ List.map_filter (parse_line rockIndex) (drop i lines)"
proof (induction lines rockIndex i data rule: parseCSV_loop.induct)
  case (1 lines rockIndex i data)
  show ?case
  proof (cases "i < length lines")
    case False
    then show ?thesis
      by (simp add: parseCSV_loop.simps [of lines rockIndex i data])
  next
    case True
    then have d: "drop i lines = lines ! i # drop (Suc i) lines"
      by (simp add: Cons_nth_drop_Suc)
    show ?thesis
    proof (cases "parse_line rockIndex (lines ! i)")
      case None
      with True "1.IH"(1) d show ?thesis
        by (simp add: parseCSV_loop.simps [of lines rockIndex i data])
    next
      case (Some block)
      with True "1.IH"(2) d show ?thesis
        by (simp add: parseCSV_loop.simps [of lines rockIndex i data])
    qed
  qed
qed

lemma map_filter_if:
  "List.map_filter (\<lambda>x. if P x then Some (g x) else None) xs = map g (filter P xs)"
  by (induction xs) (simp_all add: List.map_filter_simps)

lemma parse_line_row_kept:
  "parse_line rockIndex line =
     (if row_kept line then Some (make_block rockIndex (split CHR '','' line)) else None)"
  by (simp add: parse_line_def row_kept_def Let_def make_block_def not_less)

lemma parseCSV_filter:
  "parseCSV csvText =
     map (\<lambda>line. make_block (rockIndex_of (split CHR 0x0A csvText)) (split CHR '','' line))
         (filter row_kept (drop 3 (split CHR 0x0A csvText)))"
  unfolding parseCSV_def Let_def parseCSV_loop_map_filter
  by (simp add: parse_line_row_kept [abs_def] map_filter_if)

text \<open>
  Claim C1, as the specification states it, fails: a row whose first field reads
  \<open>Infinity\<close> does not parse as a finite number, yet \<open>parseCSV\<close> keeps it, because the
  source tests \<open>isNaN\<close> and \<open>isNaN(Infinity)\<close> is false.
\<close>

theorem parseCSV_keeps_Infinity_row:
  "parseCSV ''x,y,z,dx,dy,dz,rock\<newline>A\<newline>B\<newline>Infinity,20,30,2,2,2,granite'' =
     [\<lparr> centroid_x = PInf, centroid_y = Fin 20, centroid_z = Fin 30,
        dim_x = Fin 2, dim_y = Fin 2, dim_z = Fin 2, rock = ''granite'' \<rparr>]
   \<and> parseCSV_spec ''x,y,z,dx,dy,dz,rock\<newline>A\<newline>B\<newline>Infinity,20,30,2,2,2,granite'' = []"
  by code_simp

text \<open>
  Claim C1, amended: for every input text the parser skips the first three lines and
  keeps, in order, exactly those later lines that are not blank, split into at least
  six comma-separated fields, and whose first and fourth field do not parse to
  \<open>NaN\<close> (so \<open>Infinity\<close> is accepted); each kept line yields the block of its fields.
  For the scenario input the result is the one block with centroid (10,20,30),
  dimensions (2,2,2) and rock \<open>granite\<close>.
\<close>

theorem parseCSV_keeps_rows:
  "parseCSV csvText =
     map (\<lambda>line. make_block (rockIndex_of (split CHR 0x0A csvText)) (split CHR '','' line))
         (filter row_kept (drop 3 (split CHR 0x0A csvText)))
   \<and> parseCSV ''x,y,z,dx,dy,dz,rock\<newline>A\<newline>B\<newline>C\<newline>10,20,30,2,2,2,granite\<newline>'' =
       [\<lparr> centroid_x = Fin 10, centroid_y = Fin 20, centroid_z = Fin 30,
          dim_x = Fin 2, dim_y = Fin 2, dim_z = Fin 2, rock = ''granite'' \<rparr>]"
proof
  show "parseCSV csvText =
     map (\<lambda>line. make_block (rockIndex_of (split CHR 0x0A csvText)) (split CHR '','' line))
         (filter row_kept (drop 3 (split CHR 0x0A csvText)))"
    by (rule parseCSV_filter)
next
  show "parseCSV ''x,y,z,dx,dy,dz,rock\<newline>A\<newline>B\<newline>C\<newline>10,20,30,2,2,2,granite\<newline>'' =
       [\<lparr> centroid_x = Fin 10, centroid_y = Fin 20, centroid_z = Fin 30,
          dim_x = Fin 2, dim_y = Fin 2, dim_z = Fin 2, rock = ''granite'' \<rparr>]"
    by code_simp
qed

theorem parseCSV_keeps_rows_witness:
  "parseCSV ''x,rock\<newline>A\<newline>B\<newline>1,2,3,abc,5,6\<newline> \<newline>1,2,3\<newline>-Infinity,7,8,4e1x,5,6'' =
     [\<lparr> centroid_x = NInf, centroid_y = Fin 7, centroid_z = Fin 8,
        dim_x = Fin 40, dim_y = Fin 5, dim_z = Fin 6, rock = ''7'' \<rparr>]"
proof -
  let ?t = "''x,rock\<newline>A\<newline>B\<newline>1,2,3,abc,5,6\<newline> \<newline>1,2,3\<newline>-Infinity,7,8,4e1x,5,6''"
  have "parseCSV ?t =
     map (\<lambda>line. make_block (rockIndex_of (split CHR 0x0A ?t)) (split CHR '','' line))
         (filter row_kept (drop 3 (split CHR 0x0A ?t)))"
    using parseCSV_keeps_rows [of ?t] by (rule conjunct1)
  also have "\<dots> =
     [\<lparr> centroid_x = NInf, centroid_y = Fin 7, centroid_z = Fin 8,
        dim_x = Fin 40, dim_y = Fin 5, dim_z = Fin 6, rock = ''7'' \<rparr>]"
    by code_simp
  finally show ?thesis .
qed

text \<open>
  Claim C10: a data row that is kept (so it has six fields or more) but has no field at
  the rock index found in the header yields a block labelled \<open>unknown\<close>; a label
  other than \<open>unknown\<close> is always the row's field at the rock index, which is then
  in range.
\<close>

theorem rock_unknown_when_row_short:
  assumes "line \<in> set (drop 3 (split CHR 0x0A csvText))"
    and "row_kept line"
    and "int (length (split CHR '','' line)) \<le> rockIndex_of (split CHR 0x0A csvText)"
  shows "6 \<le> length (split CHR '','' line)
    \<and> make_block (rockIndex_of (split CHR 0x0A csvText)) (split CHR '','' line)
        \<in> set (parseCSV csvText)
    \<and> rock (make_block (rockIndex_of (split CHR 0x0A csvText)) (split CHR '','' line))
        = ''unknown''
    \<and> (\<forall>rockIndex values. rock (make_block rockIndex values) \<noteq> ''unknown'' \<longrightarrow>
          0 \<le> rockIndex \<and> rockIndex < int (length values)
          \<and> rock (make_block rockIndex values) = values ! nat rockIndex)"
proof (intro conjI)
  show "6 \<le> length (split CHR '','' line)"
    using assms(2) by (simp add: row_kept_def)
  show "make_block (rockIndex_of (split CHR 0x0A csvText)) (split CHR '','' line)
        \<in> set (parseCSV csvText)"
    using assms(1,2) by (simp add: parseCSV_filter)
  show "rock (make_block (rockIndex_of (split CHR 0x0A csvText)) (split CHR '','' line))
        = ''unknown''"
    using assms(3) by (simp add: make_block_def)
  show "\<forall>rockIndex values. rock (make_block rockIndex values) \<noteq> ''unknown'' \<longrightarrow>
          0 \<le> rockIndex \<and> rockIndex < int (length values)
          \<and> rock (make_block rockIndex values) = values ! nat rockIndex"
    by (simp add: make_block_def)
qed

theorem rock_unknown_when_row_short_witness:
  "6 \<le> length (split CHR '','' ''1,2,3,4,5,6,basalt'')
   \<and> rockIndex_of (split CHR 0x0A ''x,y,z,dx,dy,dz,grade,rock\<newline>A\<newline>B\<newline>1,2,3,4,5,6,basalt'') = 7
   \<and> parseCSV ''x,y,z,dx,dy,dz,grade,rock\<newline>A\<newline>B\<newline>1,2,3,4,5,6,basalt'' =
       [\<lparr> centroid_x = Fin 1, centroid_y = Fin 2, centroid_z = Fin 3,
          dim_x = Fin 4, dim_y = Fin 5, dim_z = Fin 6, rock = ''unknown'' \<rparr>]
   \<and> rock (make_block
        (rockIndex_of (split CHR 0x0A ''x,y,z,dx,dy,dz,grade,rock\<newline>A\<newline>B\<newline>1,2,3,4,5,6,basalt''))
        (split CHR '','' ''1,2,3,4,5,6,basalt'')) = ''unknown''"
proof -
  let ?t = "''x,y,z,dx,dy,dz,grade,rock\<newline>A\<newline>B\<newline>1,2,3,4,5,6,basalt''"
  let ?l = "''1,2,3,4,5,6,basalt''"
  have h1: "?l \<in> set (drop 3 (split CHR 0x0A ?t))" by code_simp
  have h2: "row_kept ?l" by code_simp
  have h3: "int (length (split CHR '','' ?l)) \<le> rockIndex_of (split CHR 0x0A ?t)" by code_simp
  have e1: "rockIndex_of (split CHR 0x0A ?t) = 7" by code_simp
  have e2: "parseCSV ?t =
       [\<lparr> centroid_x = Fin 1, centroid_y = Fin 2, centroid_z = Fin 3,
          dim_x = Fin 4, dim_y = Fin 5, dim_z = Fin 6, rock = ''unknown'' \<rparr>]" by code_simp
  from rock_unknown_when_row_short [OF h1 h2 h3] e1 e2 show ?thesis by blast
qed

section \<open>Properties of the coordinate offset\<close>

lemma fold_min_triple:
  "fold (\<lambda>block (minX, minY, minZ).
            (Math_min minX (centroid_x block),
             Math_min minY (centroid_y block),
             Math_min minZ (centroid_z block))) blocks (a, b, c) =
     (fold (\<lambda>block m. Math_min m (centroid_x block)) blocks a,
      fold (\<lambda>block m. Math_min m (centroid_y block)) blocks b,
      fold (\<lambda>block m. Math_min m (centroid_z block)) blocks c)"
  by (induction blocks arbitrary: a b c) simp_all

lemma coordinateOffset_computed:
  "coordinateOffset (computeCoordinateOffset blocks app) =
     \<lparr> vec_x = fold (\<lambda>block m. Math_min m (centroid_x block)) blocks PInf,
       vec_y = fold (\<lambda>block m. Math_min m (centroid_y block)) blocks PInf,
       vec_z = fold (\<lambda>block m. Math_min m (centroid_z block)) blocks PInf \<rparr>"
  by (simp add: computeCoordinateOffset_def fold_min_triple)

lemma js_ge_trans: "js_ge a b \<Longrightarrow> js_ge b c \<Longrightarrow> js_ge a c"
  by (cases a; cases b; cases c) auto

lemma Math_min_Fin_cases:
  "m \<noteq> NaN \<Longrightarrow> m \<noteq> NInf \<Longrightarrow>
     isFinite (Math_min m (Fin q)) \<and> (Math_min m (Fin q) = m \<or> Math_min m (Fin q) = Fin q)
     \<and> js_ge m (Math_min m (Fin q)) \<and> js_ge (Fin q) (Math_min m (Fin q))"
  by (cases m) (auto simp: min_def)

lemma fold_Math_min_aux:
  assumes "\<forall>b\<in>set bs. isFinite (g b)" and "m \<noteq> NaN" and "m \<noteq> NInf"
  shows "(fold (\<lambda>b m. Math_min m (g b)) bs m = m \<or> fold (\<lambda>b m. Math_min m (g b)) bs m \<in> g ` set bs)
     \<and> js_ge m (fold (\<lambda>b m. Math_min m (g b)) bs m)
     \<and> (\<forall>b\<in>set bs. js_ge (g b) (fold (\<lambda>b m. Math_min m (g b)) bs m))"
  using assms
proof (induction bs arbitrary: m)
  case Nil
  then show ?case by (cases m) auto
next
  case (Cons b bs)
  from Cons.prems obtain q where q: "g b = Fin q" by (cases "g b") auto
  let ?m' = "Math_min m (Fin q)"
  note mm = Math_min_Fin_cases [OF Cons.prems(2,3), of q]
  from mm have fin: "?m' \<noteq> NaN" "?m' \<noteq> NInf" by auto
  from Cons.prems have "\<forall>b\<in>set bs. isFinite (g b)" by simp
  note IH = Cons.IH [OF this fin]
  let ?r = "fold (\<lambda>b m. Math_min m (g b)) bs ?m'"
  have r: "fold (\<lambda>b m. Math_min m (g b)) (b # bs) m = ?r" by (simp add: q)
  have 1: "?r = m \<or> ?r \<in> g ` set (b # bs)" using IH mm q by auto
  have 2: "js_ge m ?r" using IH mm js_ge_trans by blast
  have 3: "js_ge (g b) ?r" using IH mm js_ge_trans q by metis
  have 4: "\<forall>b\<in>set bs. js_ge (g b) ?r" using IH by blast
  show ?case unfolding r using 1 2 3 4 by simp
qed

lemma fold_Math_min_finite:
  assumes "\<forall>b\<in>set bs. isFinite (g b)" and "bs \<noteq> []"
  shows "fold (\<lambda>b m. Math_min m (g b)) bs PInf \<in> g ` set bs
     \<and> (\<forall>b\<in>set bs. js_ge (g b) (fold (\<lambda>b m. Math_min m (g b)) bs PInf))"
proof -
  from fold_Math_min_aux [OF assms(1), of PInf]
  have a: "fold (\<lambda>b m. Math_min m (g b)) bs PInf = PInf \<or> fold (\<lambda>b m. Math_min m (g b)) bs PInf \<in> g ` set bs"
    and b: "\<forall>b\<in>set bs. js_ge (g b) (fold (\<lambda>b m. Math_min m (g b)) bs PInf)" by auto
  from assms(2) obtain x where x: "x \<in> set bs" by (cases bs) auto
  with assms(1) obtain q where q: "g x = Fin q" by (cases "g x") auto
  from b x q have "js_ge (Fin q) (fold (\<lambda>b m. Math_min m (g b)) bs PInf)" by metis
  then have "fold (\<lambda>b m. Math_min m (g b)) bs PInf \<noteq> PInf" by auto
  with a b show ?thesis by blast
qed

lemma js_sub_nonneg:
  "isFinite a \<Longrightarrow> js_ge a b \<Longrightarrow> b \<noteq> NInf \<Longrightarrow> js_ge (js_sub a b) (Fin 0)"
  by (cases a; cases b) (auto simp: js_sub_def)

text \<open>
  Claim C2, as the specification states it, fails: the parser validates only the first
  and the fourth field, so a parsed block can carry \<open>NaN\<close> as a centroid coordinate.
  \<open>Math.min\<close> then returns \<open>NaN\<close>, the offset is not a minimum, and the block's
  coordinate minus the offset is \<open>NaN\<close>, which is not \<open>>= 0\<close>.
\<close>

theorem coordinateOffset_NaN_centroid:
  "parseCSV ''x,y,z,dx,dy,dz,rock\<newline>A\<newline>B\<newline>10,abc,30,2,2,2,granite'' =
     [\<lparr> centroid_x = Fin 10, centroid_y = NaN, centroid_z = Fin 30,
        dim_x = Fin 2, dim_y = Fin 2, dim_z = Fin 2, rock = ''granite'' \<rparr>]
   \<and> coordinateOffset (computeCoordinateOffset
        (parseCSV ''x,y,z,dx,dy,dz,rock\<newline>A\<newline>B\<newline>10,abc,30,2,2,2,granite'') MiningVizApp_new) =
       \<lparr> vec_x = Fin 10, vec_y = NaN, vec_z = Fin 30 \<rparr>
   \<and> \<not> js_ge
        (js_sub
          (centroid_y (hd (parseCSV ''x,y,z,dx,dy,dz,rock\<newline>A\<newline>B\<newline>10,abc,30,2,2,2,granite'')))
          (vec_y (coordinateOffset (computeCoordinateOffset
            (parseCSV ''x,y,z,dx,dy,dz,rock\<newline>A\<newline>B\<newline>10,abc,30,2,2,2,granite'') MiningVizApp_new))))
        (Fin 0)"
proof -
  have p: "parseCSV ''x,y,z,dx,dy,dz,rock\<newline>A\<newline>B\<newline>10,abc,30,2,2,2,granite'' =
     [\<lparr> centroid_x = Fin 10, centroid_y = NaN, centroid_z = Fin 30,
        dim_x = Fin 2, dim_y = Fin 2, dim_z = Fin 2, rock = ''granite'' \<rparr>]"
    by code_simp
  show ?thesis
    unfolding p by (simp add: computeCoordinateOffset_def js_sub_def)
qed

text \<open>
  Claim C2, amended: for every non-empty dataset whose centroid coordinates are all
  finite numbers, the computed offset is the component-wise minimum of the centroids
  (on each axis it is the coordinate of some block and no block's coordinate is below
  it), and every block's centroid minus the offset is \<open>>= 0\<close> on each of the three axes.
\<close>

theorem coordinateOffset_is_minimum:
  assumes "blocks \<noteq> []"
    and "\<forall>b\<in>set blocks.
           isFinite (centroid_x b) \<and> isFinite (centroid_y b) \<and> isFinite (centroid_z b)"
  shows "vec_x (coordinateOffset (computeCoordinateOffset blocks app)) \<in> centroid_x ` set blocks
    \<and> vec_y (coordinateOffset (computeCoordinateOffset blocks app)) \<in> centroid_y ` set blocks
    \<and> vec_z (coordinateOffset (computeCoordinateOffset blocks app)) \<in> centroid_z ` set blocks
    \<and> (\<forall>b\<in>set blocks.
          js_ge (centroid_x b) (vec_x (coordinateOffset (computeCoordinateOffset blocks app)))
        \<and> js_ge (centroid_y b) (vec_y (coordinateOffset (computeCoordinateOffset blocks app)))
        \<and> js_ge (centroid_z b) (vec_z (coordinateOffset (computeCoordinateOffset blocks app)))
        \<and> js_ge (js_sub (centroid_x b)
                   (vec_x (coordinateOffset (computeCoordinateOffset blocks app)))) (Fin 0)
        \<and> js_ge (js_sub (centroid_y b)
                   (vec_y (coordinateOffset (computeCoordinateOffset blocks app)))) (Fin 0)
        \<and> js_ge (js_sub (centroid_z b)
                   (vec_z (coordinateOffset (computeCoordinateOffset blocks app)))) (Fin 0))"
proof -
  let ?mx = "fold (\<lambda>block m. Math_min m (centroid_x block)) blocks PInf"
  let ?my = "fold (\<lambda>block m. Math_min m (centroid_y block)) blocks PInf"
  let ?mz = "fold (\<lambda>block m. Math_min m (centroid_z block)) blocks PInf"
  have fx: "\<forall>b\<in>set blocks. isFinite (centroid_x b)"
    and fy: "\<forall>b\<in>set blocks. isFinite (centroid_y b)"
    and fz: "\<forall>b\<in>set blocks. isFinite (centroid_z b)"
    using assms(2) by blast+
  note X = fold_Math_min_finite [OF fx assms(1)]
  note Y = fold_Math_min_finite [OF fy assms(1)]
  note Z = fold_Math_min_finite [OF fz assms(1)]
  have nx: "?mx \<noteq> NInf" using X fx by force
  have ny: "?my \<noteq> NInf" using Y fy by force
  have nz: "?mz \<noteq> NInf" using Z fz by force
  have sx: "\<forall>b\<in>set blocks. js_ge (js_sub (centroid_x b) ?mx) (Fin 0)"
    using X fx nx js_sub_nonneg by blast
  have sy: "\<forall>b\<in>set blocks. js_ge (js_sub (centroid_y b) ?my) (Fin 0)"
    using Y fy ny js_sub_nonneg by blast
  have sz: "\<forall>b\<in>set blocks. js_ge (js_sub (centroid_z b) ?mz) (Fin 0)"
    using Z fz nz js_sub_nonneg by blast
  show ?thesis
    unfolding coordinateOffset_computed using X Y Z sx sy sz by simp
qed

theorem coordinateOffset_is_minimum_witness:
  "coordinateOffset (computeCoordinateOffset
      [\<lparr> centroid_x = Fin 10, centroid_y = Fin 20, centroid_z = Fin 30,
         dim_x = Fin 2, dim_y = Fin 2, dim_z = Fin 2, rock = ''granite'' \<rparr>,
       \<lparr> centroid_x = Fin 4, centroid_y = Fin 25, centroid_z = Fin 31,
         dim_x = Fin 2, dim_y = Fin 2, dim_z = Fin 2, rock = ''basalt'' \<rparr>] MiningVizApp_new)
     = \<lparr> vec_x = Fin 4, vec_y = Fin 20, vec_z = Fin 30 \<rparr>
   \<and> js_ge (js_sub (Fin 10)
        (vec_x (coordinateOffset (computeCoordinateOffset
      [\<lparr> centroid_x = Fin 10, centroid_y = Fin 20, centroid_z = Fin 30,
         dim_x = Fin 2, dim_y = Fin 2, dim_z = Fin 2, rock = ''granite'' \<rparr>,
       \<lparr> centroid_x = Fin 4, centroid_y = Fin 25, centroid_z = Fin 31,
         dim_x = Fin 2, dim_y = Fin 2, dim_z = Fin 2, rock = ''basalt'' \<rparr>] MiningVizApp_new))))
        (Fin 0)"
proof -
  let ?b1 = "\<lparr> centroid_x = Fin 10, centroid_y = Fin 20, centroid_z = Fin 30,
         dim_x = Fin 2, dim_y = Fin 2, dim_z = Fin 2, rock = ''granite'' \<rparr>"
  let ?b2 = "\<lparr> centroid_x = Fin 4, centroid_y = Fin 25, centroid_z = Fin 31,
         dim_x = Fin 2, dim_y = Fin 2, dim_z = Fin 2, rock = ''basalt'' \<rparr>"
  have h1: "[?b1, ?b2] \<noteq> []" by simp
  have h2: "\<forall>b\<in>set [?b1, ?b2].
           isFinite (centroid_x b) \<and> isFinite (centroid_y b) \<and> isFinite (centroid_z b)"
    by simp
  have e: "coordinateOffset (computeCoordinateOffset [?b1, ?b2] MiningVizApp_new)
     = \<lparr> vec_x = Fin 4, vec_y = Fin 20, vec_z = Fin 30 \<rparr>"
    by (simp add: computeCoordinateOffset_def)
  from coordinateOffset_is_minimum [OF h1 h2, of MiningVizApp_new]
  have "js_ge (js_sub (centroid_x ?b1)
          (vec_x (coordinateOffset (computeCoordinateOffset [?b1, ?b2] MiningVizApp_new)))) (Fin 0)"
    by simp
  with e show ?thesis by simp
qed

section \<open>Properties of the clipping controls\<close>

lemmas parseFloat_eval = parseFloat_def StrUnsignedDecimalLiteral_def isWhiteSpace_def
  isDigit_def digits_value_def digit_value_def ExponentPart_def scale10_def Let_def

lemma on_mesh_material_simps:
  "on_mesh_material f (Mesh g p m) mats = mats(m := f (mats m))"
  "on_mesh_material f (Group cs) mats = mats"
  "on_mesh_material f (PlaneHelper k cs) mats = mats"
  "on_mesh_material f Other mats = mats"
  by (simp_all add: on_mesh_material_def)

lemma fold_on_mesh_material_any:
  "fold (on_mesh_material f) nodes mats i = mats i
   \<or> (\<exists>x. fold (on_mesh_material f) nodes mats i = f x)"
proof (induction nodes arbitrary: mats)
  case Nil
  show ?case by simp
next
  case (Cons a nodes)
  show ?case
  proof (cases a)
    case (Mesh g p m)
    define mats' where "mats' = mats(m := f (mats m))"
    have step: "fold (on_mesh_material f) (a # nodes) mats = fold (on_mesh_material f) nodes mats'"
      by (simp add: Mesh on_mesh_material_simps mats'_def)
    have "mats' i = mats i \<or> mats' i = f (mats m)"
      by (simp add: mats'_def)
    with Cons.IH [of mats'] show ?thesis
      unfolding step by metis
  qed (use Cons.IH [of mats] in \<open>simp_all add: on_mesh_material_simps\<close>)
qed

lemma fold_on_mesh_material_hit:
  "i \<in> set (concat (map mesh_material nodes)) \<Longrightarrow>
     \<exists>x. fold (on_mesh_material f) nodes mats i = f x"
proof (induction nodes arbitrary: mats)
  case Nil
  then show ?case by simp
next
  case (Cons a nodes)
  show ?case
  proof (cases a)
    case (Mesh g p m)
    define mats' where "mats' = mats(m := f (mats m))"
    have step: "fold (on_mesh_material f) (a # nodes) mats = fold (on_mesh_material f) nodes mats'"
      by (simp add: Mesh on_mesh_material_simps mats'_def)
    show ?thesis
    proof (cases "i = m")
      case True
      then have "mats' i = f (mats m)" by (simp add: mats'_def)
      with fold_on_mesh_material_any [of f nodes mats' i]
      show ?thesis unfolding step by metis
    next
      case False
      with Cons.prems Mesh have "i \<in> set (concat (map mesh_material nodes))" by simp
      from Cons.IH [OF this, of mats'] show ?thesis
        unfolding step .
    qed
  qed (use Cons in \<open>simp_all add: on_mesh_material_simps\<close>)
qed

lemma disableClipping_fields:
  "\<not> localClippingEnabled (disableClipping app)"
  "activeClipPlane (disableClipping app) = None"
  "scene (disableClipping app) = scene app"
  "clipPlanes (disableClipping app) = clipPlanes app"
  by (simp_all add: disableClipping_def)

lemma disableClipping_materials:
  assumes "m \<in> set (scene_mesh_materials (scene (disableClipping app)))"
  shows "clippingPlanes (materials (disableClipping app) m) = []"
proof -
  from assms have "m \<in> set (concat (map mesh_material (concat (map descendants (scene app)))))"
    by (simp add: scene_mesh_materials_def disableClipping_def)
  from fold_on_mesh_material_hit [OF this, of
      "\<lambda>material. material \<lparr> clippingPlanes := [], version := Suc (version material) \<rparr>"
      "materials app"]
  obtain x where "fold (on_mesh_material
      (\<lambda>material. material \<lparr> clippingPlanes := [], version := Suc (version material) \<rparr>))
      (concat (map descendants (scene app))) (materials app) m
      = x \<lparr> clippingPlanes := [], version := Suc (version x) \<rparr>" by blast
  then show ?thesis
    by (simp add: disableClipping_def traverse_def)
qed

lemma updateClipPlane_fields:
  "localClippingEnabled (updateClipPlane app) = localClippingEnabled app"
  "activeClipPlane (updateClipPlane app) = activeClipPlane app"
  "scene (updateClipPlane app) = scene app"
  "materials (updateClipPlane app) = materials app"
  by (simp_all add: updateClipPlane_def split: option.splits)

lemma setActiveClipPlane_fields:
  "localClippingEnabled (setActiveClipPlane k app)"
  "activeClipPlane (setActiveClipPlane k app) = Some k"
  by (simp_all add: setActiveClipPlane_def Let_def updateClipPlane_fields disableClipping_fields
        split: option.splits)

lemma positionSlider_oninput_fields:
  "localClippingEnabled (positionSlider_oninput v app) = localClippingEnabled app"
  "activeClipPlane (positionSlider_oninput v app) = activeClipPlane app"
  by (simp_all add: positionSlider_oninput_def updateClipPlane_fields)

lemma clip_step_invariant:
  "(localClippingEnabled app \<longleftrightarrow> activeClipPlane app \<noteq> None) \<Longrightarrow>
   (localClippingEnabled (clip_step e app) \<longleftrightarrow> activeClipPlane (clip_step e app) \<noteq> None)"
  by (cases e)
     (simp_all add: setActiveClipPlane_fields positionSlider_oninput_fields disableClipping_fields)

lemma clip_run_invariant:
  "(localClippingEnabled app \<longleftrightarrow> activeClipPlane app \<noteq> None) \<Longrightarrow>
   (localClippingEnabled (clip_run events app) \<longleftrightarrow> activeClipPlane (clip_run events app) \<noteq> None)"
  unfolding clip_run_def
proof (induction events arbitrary: app)
  case Nil
  then show ?case by simp
next
  case (Cons e events)
  from Cons.IH [OF clip_step_invariant [OF Cons.prems, of e]] show ?case by simp
qed

lemma setActiveClipPlane_clipPlanes:
  "clipPlanes (setActiveClipPlane k app) k = js_neg (clipPosition app)"
  by (simp add: setActiveClipPlane_def Let_def updateClipPlane_def disableClipping_def
        split: option.splits)

lemma setActiveClipPlane_scene:
  "scene (setActiveClipPlane k app) =
     (case clipPlaneHelpers app k of
        Some visible \<Rightarrow> scene app
      | None \<Rightarrow> scene app @
          [PlaneHelper k
             [Mesh BufferGeometry \<lparr> vec_x = Fin 0, vec_y = Fin 0, vec_z = Fin 0 \<rparr>
                (material_count app)]])"
  by (simp add: setActiveClipPlane_def Let_def updateClipPlane_def disableClipping_def
        split: option.splits)

lemma positionSlider_oninput_active:
  "activeClipPlane app = Some k \<Longrightarrow>
     clipPlanes (positionSlider_oninput v app) k = js_neg (parseFloat v)"
  by (simp add: positionSlider_oninput_def updateClipPlane_def)

lemma positionSlider_oninput_inactive:
  "activeClipPlane app = None \<Longrightarrow>
     positionSlider_oninput v app = app \<lparr> clipPosition := parseFloat v \<rparr>"
  by (simp add: positionSlider_oninput_def updateClipPlane_def)

lemma MiningVizApp_new_clipping:
  "\<not> localClippingEnabled MiningVizApp_new"
  "activeClipPlane MiningVizApp_new = None"
  "clipPlaneHelpers MiningVizApp_new k = None"
  "clipPlanes MiningVizApp_new k = Fin 0"
  "material_count MiningVizApp_new = 0"
  "scene MiningVizApp_new = [Group [Other, Other, Other], Other, Other, Other, Other]"
  by (simp_all add: MiningVizApp_new_def)

text \<open>
  Claim C3: starting from a state in which the renderer's clipping flag is set exactly
  when a plane is active (the constructor's state is one), after any sequence of
  \<open>selectPlane\<close>, \<open>setOffset\<close> and \<open>disable\<close> transitions the flag is again set
  exactly when the clipping state is not \<open>None\<close>; and \<open>disable\<close> after such a sequence
  leaves the flag false, no plane active, and every mesh material of the scene with
  zero clip planes.
\<close>

theorem clipping_flag_iff_active:
  assumes "localClippingEnabled app \<longleftrightarrow> activeClipPlane app \<noteq> None"
  shows "(localClippingEnabled (clip_run events app)
            \<longleftrightarrow> activeClipPlane (clip_run events app) \<noteq> None)
    \<and> \<not> localClippingEnabled (disableClipping (clip_run events app))
    \<and> activeClipPlane (disableClipping (clip_run events app)) = None
    \<and> (\<forall>m \<in> set (scene_mesh_materials (scene (disableClipping (clip_run events app)))).
          clippingPlanes (materials (disableClipping (clip_run events app)) m) = [])"
  using clip_run_invariant [OF assms, of events]
  by (simp add: disableClipping_fields disableClipping_materials)

theorem clipping_flag_iff_active_witness:
  "localClippingEnabled (clip_run [selectPlane XY] MiningVizApp_new)
   \<and> activeClipPlane (clip_run [selectPlane XY] MiningVizApp_new) = Some XY
   \<and> \<not> localClippingEnabled (disableClipping (clip_run [selectPlane XY] MiningVizApp_new))
   \<and> scene_mesh_materials (scene (disableClipping (clip_run [selectPlane XY] MiningVizApp_new)))
       = [0]
   \<and> clippingPlanes (materials (disableClipping (clip_run [selectPlane XY] MiningVizApp_new)) 0)
       = []"
proof -
  let ?s = "clip_run [selectPlane XY] MiningVizApp_new"
  have h: "localClippingEnabled MiningVizApp_new \<longleftrightarrow> activeClipPlane MiningVizApp_new \<noteq> None"
    by (simp add: MiningVizApp_new_clipping)
  have a: "activeClipPlane ?s = Some XY"
    by (simp add: clip_run_def setActiveClipPlane_fields)
  have m: "scene_mesh_materials (scene (disableClipping ?s)) = [0]"
    by (simp add: clip_run_def disableClipping_fields setActiveClipPlane_scene
          MiningVizApp_new_clipping scene_mesh_materials_def)
  from clipping_flag_iff_active [OF h, of "[selectPlane XY]"] a m
  show ?thesis by simp
qed

text \<open>
  Claim C4: for every plane \<open>k\<close> and every slider value \<open>v\<close>, after \<open>selectPlane(k)\<close>
  then \<open>setOffset(v)\<close> the stored constant of plane \<open>k\<close> is the negation of the number
  the slider value denotes; \<open>selectPlane("xy")\<close> then \<open>setOffset(150)\<close> stores \<open>-150\<close>.
\<close>

theorem clip_plane_constant_negated:
  "clipPlanes (clip_run [selectPlane k, setOffset v] app) k = js_neg (parseFloat v)
   \<and> clipPlanes (clip_run [selectPlane XY, setOffset ''150''] app) XY = Fin (- 150)"
proof -
  have g: "clipPlanes (clip_run [selectPlane k', setOffset v'] app) k' = js_neg (parseFloat v')"
    for k' v'
    by (simp add: clip_run_def positionSlider_oninput_active setActiveClipPlane_fields)
  have p: "parseFloat ''150'' = Fin 150" by (simp add: parseFloat_eval)
  from g [of k v] g [of XY "''150''"] p show ?thesis by simp
qed

theorem clip_plane_constant_negated_witness:
  "clipPlanes (clip_run [selectPlane YZ, setOffset ''-2000''] MiningVizApp_new) YZ = Fin 2000"
proof -
  have p: "parseFloat ''-2000'' = Fin (- 2000)" by (simp add: parseFloat_eval)
  from clip_plane_constant_negated [of YZ "''-2000''" MiningVizApp_new] p
  show ?thesis by simp
qed

lemma positionSlider_oninput_clipPosition:
  "clipPosition (positionSlider_oninput v app) = parseFloat v"
  by (simp add: positionSlider_oninput_def updateClipPlane_def split: option.splits)

text \<open>
  Claim C9, as the specification states it, fails: while no plane is active
  \<open>setOffset(v)\<close> is not a no-op and is not ignored.  The handler stores the value in
  \<open>clipPosition\<close> before \<open>updateClipPlane\<close> tests for an active plane, and the next
  \<open>selectPlane\<close> applies it: after \<open>setOffset(150)\<close> in state \<open>None\<close>,
  \<open>selectPlane("xy")\<close> puts the plane at \<open>-150\<close>, where without the \<open>setOffset\<close> it
  puts it at \<open>0\<close>.
\<close>

theorem setOffset_inactive_applies_on_select:
  "activeClipPlane MiningVizApp_new = None
   \<and> clipPosition MiningVizApp_new = Fin 0
   \<and> clipPosition (clip_step (setOffset ''150'') MiningVizApp_new) = Fin 150
   \<and> clipPlanes (clip_run [selectPlane XY] MiningVizApp_new) XY = Fin 0
   \<and> clipPlanes (clip_run [setOffset ''150'', selectPlane XY] MiningVizApp_new) XY = Fin (- 150)"
proof -
  have p: "parseFloat ''150'' = Fin 150" by (simp add: parseFloat_eval)
  have z: "clipPosition MiningVizApp_new = Fin 0" by (simp add: MiningVizApp_new_def)
  show ?thesis
    by (simp add: clip_run_def setActiveClipPlane_clipPlanes positionSlider_oninput_clipPosition
          MiningVizApp_new_clipping p z)
qed

text \<open>
  Claim C9, amended: while no plane is active, \<open>setOffset(v)\<close> changes no clip plane's
  position, no material, no scene object, no helper and not the renderer's clipping
  flag, and the state stays \<open>None\<close>; it changes the remembered offset to \<open>v\<close> and
  nothing else, and the next \<open>selectPlane(k)\<close> puts plane \<open>k\<close> at \<open>-v\<close>.  While a
  plane is active, \<open>setOffset(v)\<close> puts that plane at \<open>-v\<close> at once.
\<close>

theorem setOffset_inactive_deferred:
  "(activeClipPlane app = None \<longrightarrow>
      clipPlanes (clip_step (setOffset v) app) = clipPlanes app
    \<and> materials (clip_step (setOffset v) app) = materials app
    \<and> scene (clip_step (setOffset v) app) = scene app
    \<and> clipPlaneHelpers (clip_step (setOffset v) app) = clipPlaneHelpers app
    \<and> localClippingEnabled (clip_step (setOffset v) app) = localClippingEnabled app
    \<and> activeClipPlane (clip_step (setOffset v) app) = None
    \<and> clip_step (setOffset v) app = app \<lparr> clipPosition := parseFloat v \<rparr>
    \<and> clipPosition (clip_step (setOffset v) app) = parseFloat v
    \<and> clipPlanes (clip_step (selectPlane k) (clip_step (setOffset v) app)) k
        = js_neg (parseFloat v))
   \<and> (activeClipPlane app = Some k \<longrightarrow>
        clipPlanes (clip_step (setOffset v) app) k = js_neg (parseFloat v))"
  by (simp add: positionSlider_oninput_inactive positionSlider_oninput_active
        setActiveClipPlane_clipPlanes)


theorem setOffset_inactive_deferred_witness:
  "clipPlanes (clip_step (setOffset ''150'') MiningVizApp_new) XY = Fin 0
   \<and> \<not> localClippingEnabled (clip_step (setOffset ''150'') MiningVizApp_new)
   \<and> activeClipPlane (clip_step (setOffset ''150'') MiningVizApp_new) = None
   \<and> clipPosition (clip_step (setOffset ''150'') MiningVizApp_new) = Fin 150
   \<and> clipPlanes (clip_step (selectPlane XY) (clip_step (setOffset ''150'') MiningVizApp_new)) XY
       = Fin (- 150)
   \<and> clipPlanes (clip_step (setOffset ''150'') (setActiveClipPlane XY MiningVizApp_new)) XY
       = Fin (- 150)"
proof -
  have p: "parseFloat ''150'' = Fin 150" by (simp add: parseFloat_eval)
  have n: "activeClipPlane MiningVizApp_new = None"
    by (simp add: MiningVizApp_new_clipping)
  have a: "activeClipPlane (setActiveClipPlane XY MiningVizApp_new) = Some XY"
    by (simp add: setActiveClipPlane_fields)
  from setOffset_inactive_deferred [of MiningVizApp_new "''150''" XY]
       setOffset_inactive_deferred [of "setActiveClipPlane XY MiningVizApp_new" "''150''" XY]
       p n a
  show ?thesis by (simp add: MiningVizApp_new_clipping setActiveClipPlane_clipPlanes)
qed

section \<open>Properties of the rock colours\<close>

lemma Set_spread_foldl:
  "foldl (\<lambda>acc x. if x \<in> set acc then acc else acc @ [x]) acc xs =
     acc @ first_occurrence_order (filter (\<lambda>y. y \<notin> set acc) xs)"
proof (induction xs arbitrary: acc)
  case Nil
  show ?case by simp
next
  case (Cons x xs)
  show ?case
  proof (cases "x \<in> set acc")
    case True
    then show ?thesis using Cons.IH [of acc] by simp
  next
    case False
    have "filter (\<lambda>y. y \<notin> set (acc @ [x])) xs = filter (\<lambda>y. y \<noteq> x) (filter (\<lambda>y. y \<notin> set acc) xs)"
      by (induction xs) auto
    with False show ?thesis using Cons.IH [of "acc @ [x]"] by simp
  qed
qed

lemma Set_spread_first_occurrence: "Set_spread xs = first_occurrence_order xs"
  by (simp add: Set_spread_def Set_spread_foldl)

lemma set_first_occurrence_order: "set (first_occurrence_order xs) = set xs"
  by (induction xs rule: first_occurrence_order.induct) auto

lemma distinct_first_occurrence_order: "distinct (first_occurrence_order xs)"
  by (induction xs rule: first_occurrence_order.induct) (auto simp: set_first_occurrence_order)

lemma fold_set_other:
  assumes F: "\<And>i r m. F (i, r) m = m(r \<mapsto> c i)"
  shows "r \<notin> set xs \<Longrightarrow> fold F (enumerate n xs) m0 r = m0 r"
  by (induction xs arbitrary: n m0) (simp_all add: F)

lemma fold_set_nth:
  assumes F: "\<And>i r m. F (i, r) m = m(r \<mapsto> c i)"
  shows "distinct xs \<Longrightarrow> i < length xs \<Longrightarrow>
     fold F (enumerate n xs) m0 (xs ! i) = Some (c (n + i))"
proof (induction xs arbitrary: n m0 i)
  case Nil
  then show ?case by simp
next
  case (Cons x xs)
  show ?case
  proof (cases i)
    case 0
    with Cons.prems show ?thesis by (simp add: F fold_set_other [OF F])
  next
    case (Suc j)
    with Cons.prems Cons.IH [of j "Suc n" "F (n, x) m0"] show ?thesis by simp
  qed
qed

lemma fold_set_dom:
  assumes F: "\<And>i r m. F (i, r) m = m(r \<mapsto> c i)"
  shows "dom (fold F (enumerate n xs) m0) = dom m0 \<union> set xs"
  by (induction xs arbitrary: n m0) (auto simp: F)

lemma rockColors_of_nth:
  assumes "distinct rockTypes" and "i < length rockTypes"
  shows "rockColors_of rockTypes (rockTypes ! i) =
     Some (HSL (Fin (of_nat i / of_nat (length rockTypes))) (Fin 0.8) (Fin 0.6))"
proof -
  from assms(2) have "length rockTypes \<noteq> 0" by auto
  then have "js_div (Fin (of_nat i)) (Fin (of_nat (length rockTypes))) =
     Fin (of_nat i / of_nat (length rockTypes))" by simp
  moreover have "rockColors_of rockTypes (rockTypes ! i) =
     Some (HSL (js_div (Fin (of_nat (0 + i))) (Fin (of_nat (length rockTypes)))) (Fin 0.8) (Fin 0.6))"
    unfolding rockColors_of_def
    by (rule fold_set_nth [where c = "\<lambda>i. HSL (js_div (Fin (of_nat i)) (Fin (of_nat (length rockTypes)))) (Fin 0.8) (Fin 0.6)", OF _ assms])
       (simp only: prod.case)
  ultimately show ?thesis by simp
qed

lemma rockColors_of_dom: "dom (rockColors_of rockTypes) = set rockTypes"
proof -
  have "dom (rockColors_of rockTypes) = dom (Map.empty :: string \<Rightarrow> Color option) \<union> set rockTypes"
    unfolding rockColors_of_def
    by (rule fold_set_dom [where c = "\<lambda>i. HSL (js_div (Fin (of_nat i)) (Fin (of_nat (length rockTypes)))) (Fin 0.8) (Fin 0.6)"])
       (simp only: prod.case)
  then show ?thesis by simp
qed

text \<open>
  Claim C6: the rock types are the distinct labels of the dataset in the order of their
  first occurrence; with \<open>k\<close> distinct labels exactly \<open>k\<close> colours are assigned, one to
  each label, and the label at index \<open>i\<close> of that order gets hue \<open>i / k\<close> with
  saturation 0.8 and lightness 0.6.  The assignment is a function of the ordered label
  list alone, so another run over the same labels gives the same table.
\<close>

theorem rock_colors_hue:
  "rockTypes_of blocks = first_occurrence_order (map rock blocks)
   \<and> distinct (rockTypes_of blocks)
   \<and> set (rockTypes_of blocks) = rock ` set blocks
   \<and> length (rockTypes_of blocks) = card (rock ` set blocks)
   \<and> dom (rockColors_of (rockTypes_of blocks)) = rock ` set blocks
   \<and> card (dom (rockColors_of (rockTypes_of blocks))) = card (rock ` set blocks)
   \<and> (\<forall>i < length (rockTypes_of blocks).
        rockColors_of (rockTypes_of blocks) (rockTypes_of blocks ! i) =
          Some (HSL (Fin (of_nat i / of_nat (length (rockTypes_of blocks)))) (Fin 0.8) (Fin 0.6)))
   \<and> (map rock blocks' = map rock blocks \<longrightarrow>
        rockColors_of (rockTypes_of blocks') = rockColors_of (rockTypes_of blocks))"
proof -
  have d: "distinct (rockTypes_of blocks)"
    by (simp add: rockTypes_of_def Set_spread_first_occurrence distinct_first_occurrence_order)
  have s: "set (rockTypes_of blocks) = rock ` set blocks"
    by (simp add: rockTypes_of_def Set_spread_first_occurrence set_first_occurrence_order)
  have l: "length (rockTypes_of blocks) = card (rock ` set blocks)"
    using distinct_card [OF d] s by simp
  show ?thesis
    using d s l
    by (simp add: rockColors_of_dom rockColors_of_nth)
       (simp add: rockTypes_of_def Set_spread_first_occurrence)
qed


theorem rock_colors_hue_witness:
  "rockTypes_of
     [\<lparr> centroid_x = Fin 1, centroid_y = Fin 1, centroid_z = Fin 1,
        dim_x = Fin 1, dim_y = Fin 1, dim_z = Fin 1, rock = ''granite'' \<rparr>,
      \<lparr> centroid_x = Fin 2, centroid_y = Fin 2, centroid_z = Fin 2,
        dim_x = Fin 1, dim_y = Fin 1, dim_z = Fin 1, rock = ''basalt'' \<rparr>,
      \<lparr> centroid_x = Fin 3, centroid_y = Fin 3, centroid_z = Fin 3,
        dim_x = Fin 1, dim_y = Fin 1, dim_z = Fin 1, rock = ''granite'' \<rparr>]
     = [''granite'', ''basalt'']
   \<and> rockColors_of [''granite'', ''basalt''] ''basalt''
       = Some (HSL (Fin (1 / 2)) (Fin 0.8) (Fin 0.6))
   \<and> card (dom (rockColors_of [''granite'', ''basalt''])) = 2"
proof -
  let ?bs = "[\<lparr> centroid_x = Fin 1, centroid_y = Fin 1, centroid_z = Fin 1,
        dim_x = Fin 1, dim_y = Fin 1, dim_z = Fin 1, rock = ''granite'' \<rparr>,
      \<lparr> centroid_x = Fin 2, centroid_y = Fin 2, centroid_z = Fin 2,
        dim_x = Fin 1, dim_y = Fin 1, dim_z = Fin 1, rock = ''basalt'' \<rparr>,
      \<lparr> centroid_x = Fin 3, centroid_y = Fin 3, centroid_z = Fin 3,
        dim_x = Fin 1, dim_y = Fin 1, dim_z = Fin 1, rock = ''granite'' \<rparr>]"
  have r: "rockTypes_of ?bs = [''granite'', ''basalt'']"
    by (simp add: rockTypes_of_def Set_spread_def)
  note t = rock_colors_hue [of ?bs ?bs, unfolded r]
  from t have "\<forall>i<length [''granite'', ''basalt''].
        rockColors_of [''granite'', ''basalt''] ([''granite'', ''basalt''] ! i) =
          Some (HSL (Fin (of_nat i / of_nat (length [''granite'', ''basalt'']))) (Fin 0.8) (Fin 0.6))"
    by blast
  then have "rockColors_of [''granite'', ''basalt''] ([''granite'', ''basalt''] ! 1) =
          Some (HSL (Fin (of_nat 1 / of_nat (length [''granite'', ''basalt'']))) (Fin 0.8) (Fin 0.6))"
    by (rule allE [where x = 1]) simp
  then have h: "rockColors_of [''granite'', ''basalt''] ''basalt''
       = Some (HSL (Fin (1 / 2)) (Fin 0.8) (Fin 0.6))" by simp
  from t have "length [''granite'', ''basalt''] = card (rock ` set ?bs)"
    and "card (dom (rockColors_of [''granite'', ''basalt''])) = card (rock ` set ?bs)"
    by blast+
  then have "card (dom (rockColors_of [''granite'', ''basalt''])) = 2" by simp
  with r h show ?thesis by simp
qed

section \<open>Properties of the block model\<close>

lemma add_rock_group_apply:
  "add_rock_group rockColors off (rockType, blocksOfType) (mats, n, cubes) =
     (mats(n := new_Material (case rockColors rockType of Some c \<Rightarrow> c | None \<Rightarrow> Hex 0xcccccc)),
      Suc n, cubes @ map (make_cube off n) blocksOfType)"
  by (simp add: add_rock_group_def)

lemma fold_add_rock_group_cubes:
  "snd (snd (fold (add_rock_group rockColors off) entries (mats, n, cubes))) =
     cubes @ concat (map (\<lambda>p. map (make_cube off (fst p)) (snd (snd p))) (enumerate n entries))"
proof (induction entries arbitrary: mats n cubes)
  case Nil
  show ?case by simp
next
  case (Cons e entries)
  obtain rockType blocksOfType where e: "e = (rockType, blocksOfType)" by (cases e)
  show ?case
    by (simp add: e add_rock_group_apply Cons.IH)
qed

lemma cubes_from_blocks:
  "c \<in> set (concat (map (\<lambda>p. map (make_cube off (fst p)) (snd (snd p))) (enumerate n entries))) \<Longrightarrow>
     \<exists>b \<in> set (concat (map snd entries)). \<exists>m. c = make_cube off m b"
proof (induction entries arbitrary: n)
  case Nil
  then show ?case by simp
next
  case (Cons e entries)
  from Cons.prems have "c \<in> make_cube off n ` set (snd e)
      \<or> c \<in> set (concat (map (\<lambda>p. map (make_cube off (fst p)) (snd (snd p))) (enumerate (Suc n) entries)))"
    by simp
  then show ?case
  proof
    assume "c \<in> make_cube off n ` set (snd e)"
    then show ?thesis by auto
  next
    assume "c \<in> set (concat (map (\<lambda>p. map (make_cube off (fst p)) (snd (snd p))) (enumerate (Suc n) entries)))"
    from Cons.IH [OF this] show ?thesis by auto
  qed
qed

lemma length_cubes:
  "length (concat (map (\<lambda>p. map (make_cube off (fst p)) (snd (snd p))) (enumerate n entries))) =
     length (concat (map snd entries))"
  by (induction entries arbitrary: n) auto

lemma set_property_present:
  "map_of obj k = Some arr \<Longrightarrow>
     mset (concat (map snd (set_property obj k (arr @ [b])))) =
       add_mset b (mset (concat (map snd obj)))"
  by (induction obj) (auto split: if_splits)

lemma set_property_absent:
  "map_of obj k = None \<Longrightarrow> set_property obj k v = obj @ [(k, v)]"
  by (induction obj) (auto split: if_splits)

lemma group_by_rock_mset:
  "group_by_rock bs obj = Inr obj' \<Longrightarrow>
     mset (concat (map snd obj')) = mset (concat (map snd obj)) + mset bs"
proof (induction bs arbitrary: obj)
  case Nil
  then show ?case by simp
next
  case (Cons b bs)
  show ?case
  proof (cases "map_of obj (rock b)")
    case (Some arr)
    with Cons.prems have "group_by_rock bs (set_property obj (rock b) (arr @ [b])) = Inr obj'"
      by simp
    from Cons.IH [OF this] set_property_present [OF Some, of b] show ?thesis by simp
  next
    case None
    with Cons.prems have np: "rock b \<notin> set Object_prototype_keys"
      and "group_by_rock bs (set_property obj (rock b) [b]) = Inr obj'"
      by (auto split: if_splits)
    from Cons.IH [OF this(2)] show ?thesis
      by (simp add: set_property_absent [OF None])
  qed
qed

lemma group_by_rock_plain:
  "\<forall>b\<in>set bs. rock b \<notin> set Object_prototype_keys \<Longrightarrow>
     \<exists>obj'. group_by_rock bs obj = Inr obj'"
  by (induction bs arbitrary: obj) (auto split: option.splits)

lemma mset_Object_entries: "mset (Object_entries obj) = mset obj"
  by (simp add: Object_entries_def)

lemma entries_blocks:
  "mset (concat (map snd (Object_entries obj))) = mset (concat (map snd obj))"
proof -
  have *: "mset (concat (map snd xs)) = (\<Sum>e\<in>#mset xs. mset (snd e))"
    for xs :: "(string \<times> 'a list) list"
    by (induction xs) auto
  show ?thesis by (simp add: * mset_Object_entries)
qed

lemma createBlockModel_throws:
  "group_by_rock (visibleBlocks_of blocks) [] = Inl e \<Longrightarrow>
     fst (createBlockModel blocks app) = Some e
     \<and> scene (snd (createBlockModel blocks app)) = scene app
     \<and> materials (snd (createBlockModel blocks app)) = materials app
     \<and> coordinateOffset (snd (createBlockModel blocks app)) = coordinateOffset app"
  by (simp add: createBlockModel_def Let_def)

lemma createBlockModel_builds:
  "group_by_rock (visibleBlocks_of blocks) [] = Inr blocksByRock \<Longrightarrow>
     fst (createBlockModel blocks app) = None
     \<and> scene (snd (createBlockModel blocks app)) = scene app @
         [Group (concat (map (\<lambda>p. map (make_cube (coordinateOffset app) (fst p)) (snd (snd p)))
                      (enumerate (material_count app) (Object_entries blocksByRock))))]
     \<and> coordinateOffset (snd (createBlockModel blocks app)) = coordinateOffset app"
proof -
  assume g: "group_by_rock (visibleBlocks_of blocks) [] = Inr blocksByRock"
  obtain mats cnt cubes where f: "fold (add_rock_group (rockColors_of (rockTypes_of blocks)) (coordinateOffset app))
      (Object_entries blocksByRock) (materials app, material_count app, []) = (mats, cnt, cubes)"
    by (cases "fold (add_rock_group (rockColors_of (rockTypes_of blocks)) (coordinateOffset app))
      (Object_entries blocksByRock) (materials app, material_count app, [])") auto
  from fold_add_rock_group_cubes [of "rockColors_of (rockTypes_of blocks)" "coordinateOffset app"
      "Object_entries blocksByRock" "materials app" "material_count app" "[]"] f
  have c: "cubes = concat (map (\<lambda>p. map (make_cube (coordinateOffset app) (fst p)) (snd (snd p)))
                      (enumerate (material_count app) (Object_entries blocksByRock)))"
    by simp
  show ?thesis
    by (simp add: createBlockModel_def Let_def g f c)
qed

lemma visible_blocks_grouped:
  assumes "group_by_rock (visibleBlocks_of blocks) [] = Inr blocksByRock"
  shows "mset (concat (map snd (Object_entries blocksByRock))) = mset (visibleBlocks_of blocks)"
  using group_by_rock_mset [OF assms] by (simp add: entries_blocks)

lemma make_cube_expand:
  "make_cube off m b =
     Mesh (BoxGeometry (js_mul (dim_x b) (Fin 0.7))
                       (js_mul (js_mul (dim_z b) (Fin 0.7)) (Fin 2))
                       (js_mul (dim_y b) (Fin 0.7)))
          \<lparr> vec_x = js_sub (centroid_x b) (vec_x off),
            vec_y = js_mul (js_sub (centroid_z b) (vec_z off)) (Fin 2),
            vec_z = js_sub (centroid_y b) (vec_y off) \<rparr>
          m"
  by (simp add: make_cube_def scaleFactor_def heightScaleFactor_def)

lemma cubes_cover_blocks:
  "b \<in> set (concat (map snd entries)) \<Longrightarrow>
     \<exists>m. make_cube off m b \<in>
       set (concat (map (\<lambda>p. map (make_cube off (fst p)) (snd (snd p))) (enumerate n entries)))"
proof (induction entries arbitrary: n)
  case Nil
  then show ?case by simp
next
  case (Cons e entries)
  from Cons.prems have "b \<in> set (snd e) \<or> b \<in> set (concat (map snd entries))" by simp
  then show ?case
  proof
    assume "b \<in> set (snd e)"
    then have "make_cube off n b \<in>
       set (concat (map (\<lambda>p. map (make_cube off (fst p)) (snd (snd p))) (enumerate n (e # entries))))"
      by simp
    then show ?thesis ..
  next
    assume "b \<in> set (concat (map snd entries))"
    from Cons.IH [OF this, of "Suc n"] obtain m where "make_cube off m b \<in>
       set (concat (map (\<lambda>p. map (make_cube off (fst p)) (snd (snd p))) (enumerate (Suc n) entries)))"
      by blast
    then have "make_cube off m b \<in>
       set (concat (map (\<lambda>p. map (make_cube off (fst p)) (snd (snd p))) (enumerate n (e # entries))))"
      by simp
    then show ?thesis ..
  qed
qed

text \<open>
  Claim C5, amended: every box of the block group is made from one of the visible
  blocks, and every visible block has its box.  The box's extents are the block's
  dimensions times 0.7, the vertical one (source Z) times 2 in addition; its position
  is the block's centroid minus the offset, the vertical coordinate (source Z) times 2
  and the two horizontal coordinates unscaled.  So the height factor scales only the
  vertical extent and the vertical position, and the 0.7 factor scales extents only.
\<close>

theorem block_scaling:
  assumes "createBlockModel blocks app = (None, app')"
  shows "\<exists>cubes. scene app' = scene app @ [Group cubes]
    \<and> (\<forall>c\<in>set cubes. \<exists>b\<in>set (visibleBlocks_of blocks). \<exists>m.
          c = Mesh (BoxGeometry (js_mul (dim_x b) (Fin 0.7))
                                (js_mul (js_mul (dim_z b) (Fin 0.7)) (Fin 2))
                                (js_mul (dim_y b) (Fin 0.7)))
                   \<lparr> vec_x = js_sub (centroid_x b) (vec_x (coordinateOffset app)),
                     vec_y = js_mul (js_sub (centroid_z b) (vec_z (coordinateOffset app))) (Fin 2),
                     vec_z = js_sub (centroid_y b) (vec_y (coordinateOffset app)) \<rparr>
                   m)
    \<and> (\<forall>b\<in>set (visibleBlocks_of blocks). \<exists>m.
          Mesh (BoxGeometry (js_mul (dim_x b) (Fin 0.7))
                            (js_mul (js_mul (dim_z b) (Fin 0.7)) (Fin 2))
                            (js_mul (dim_y b) (Fin 0.7)))
               \<lparr> vec_x = js_sub (centroid_x b) (vec_x (coordinateOffset app)),
                 vec_y = js_mul (js_sub (centroid_z b) (vec_z (coordinateOffset app))) (Fin 2),
                 vec_z = js_sub (centroid_y b) (vec_y (coordinateOffset app)) \<rparr>
               m \<in> set cubes)"
proof -
  let ?off = "coordinateOffset app"
  from assms have ok: "fst (createBlockModel blocks app) = None" by simp
  obtain blocksByRock where g: "group_by_rock (visibleBlocks_of blocks) [] = Inr blocksByRock"
  proof (cases "group_by_rock (visibleBlocks_of blocks) []")
    case (Inl e)
    from createBlockModel_throws [OF Inl, of app] ok show ?thesis by simp
  next
    case (Inr obj)
    then show ?thesis by (rule that)
  qed
  let ?entries = "Object_entries blocksByRock"
  let ?cubes = "concat (map (\<lambda>p. map (make_cube ?off (fst p)) (snd (snd p)))
                      (enumerate (material_count app) ?entries))"
  from createBlockModel_builds [OF g, of app] assms
  have sc: "scene app' = scene app @ [Group ?cubes]" by simp
  from visible_blocks_grouped [OF g]
  have st: "set (concat (map snd ?entries)) = set (visibleBlocks_of blocks)"
    by (rule mset_eq_setD)
  have a: "\<forall>c\<in>set ?cubes. \<exists>b\<in>set (visibleBlocks_of blocks). \<exists>m. c = make_cube ?off m b"
    using cubes_from_blocks [of _ ?off "material_count app" ?entries] st by blast
  have b: "\<forall>b\<in>set (visibleBlocks_of blocks). \<exists>m. make_cube ?off m b \<in> set ?cubes"
    using cubes_cover_blocks [of _ ?entries ?off "material_count app"] st by blast
  from sc a b show ?thesis
    unfolding make_cube_expand by blast
qed

lemma Object_entries_granite:
  "Object_entries [(''granite'', bs)] = [(''granite'', bs)]"
  by (simp add: Object_entries_def is_array_index_def isDigit_def)

lemma load_two_granite_blocks:
  "parseCSV ''x,y,z,dx,dy,dz,rock\<newline>A\<newline>B\<newline>0,0,0,1,1,1,granite\<newline>10,0,0,1,1,1,granite'' =
     [\<lparr> centroid_x = Fin 0, centroid_y = Fin 0, centroid_z = Fin 0,
        dim_x = Fin 1, dim_y = Fin 1, dim_z = Fin 1, rock = ''granite'' \<rparr>,
      \<lparr> centroid_x = Fin 10, centroid_y = Fin 0, centroid_z = Fin 0,
        dim_x = Fin 1, dim_y = Fin 1, dim_z = Fin 1, rock = ''granite'' \<rparr>]"
  by code_simp

lemma loadData_built:
  assumes "parseCSV text = data" and "data \<noteq> []"
    and "fst (createBlockModel data (computeCoordinateOffset data app)) = None"
  shows "loadData (Inr text) app = snd (createBlockModel data (computeCoordinateOffset data app))"
proof (cases "createBlockModel data (computeCoordinateOffset data app)")
  case (Pair e app')
  with assms show ?thesis by (simp add: loadData_def)
qed

lemma loadData_thrown:
  assumes "parseCSV text = data" and "data \<noteq> []"
    and "fst (createBlockModel data (computeCoordinateOffset data app)) = Some e"
  shows "loadData (Inr text) app =
     (snd (createBlockModel data (computeCoordinateOffset data app)))
       \<lparr> console_error :=
           console_error (snd (createBlockModel data (computeCoordinateOffset data app)))
           @ [''Failed to load or parse data:''] \<rparr>"
proof (cases "createBlockModel data (computeCoordinateOffset data app)")
  case (Pair e' app')
  with assms show ?thesis by (simp add: loadData_def)
qed

text \<open>
  Claim C5, as the specification states it, fails: horizontal positions are not scaled
  by 0.7.  For two blocks with centroids (0,0,0) and (10,0,0) the offset is (0,0,0) and
  the second box stands at x = 10, not at 0.7 * 10 = 7.
\<close>

theorem horizontal_position_unscaled:
  "scene (loadData (Inr ''x,y,z,dx,dy,dz,rock\<newline>A\<newline>B\<newline>0,0,0,1,1,1,granite\<newline>10,0,0,1,1,1,granite'')
            MiningVizApp_new) =
     [Group [Other, Other, Other], Other, Other, Other, Other,
      Group [Mesh (BoxGeometry (Fin 0.7) (Fin 1.4) (Fin 0.7))
               \<lparr> vec_x = Fin 0, vec_y = Fin 0, vec_z = Fin 0 \<rparr> 0,
             Mesh (BoxGeometry (Fin 0.7) (Fin 1.4) (Fin 0.7))
               \<lparr> vec_x = Fin 10, vec_y = Fin 0, vec_z = Fin 0 \<rparr> 0]]
   \<and> coordinateOffset (loadData (Inr ''x,y,z,dx,dy,dz,rock\<newline>A\<newline>B\<newline>0,0,0,1,1,1,granite\<newline>10,0,0,1,1,1,granite'')
            MiningVizApp_new) = \<lparr> vec_x = Fin 0, vec_y = Fin 0, vec_z = Fin 0 \<rparr>
   \<and> js_mul (js_sub (Fin 10) (Fin 0)) scaleFactor = Fin 7"
proof -
  let ?b1 = "\<lparr> centroid_x = Fin 0, centroid_y = Fin 0, centroid_z = Fin 0,
        dim_x = Fin 1, dim_y = Fin 1, dim_z = Fin 1, rock = ''granite'' \<rparr>"
  let ?b2 = "\<lparr> centroid_x = Fin 10, centroid_y = Fin 0, centroid_z = Fin 0,
        dim_x = Fin 1, dim_y = Fin 1, dim_z = Fin 1, rock = ''granite'' \<rparr>"
  let ?app = "computeCoordinateOffset [?b1, ?b2] MiningVizApp_new"
  have off: "coordinateOffset ?app = \<lparr> vec_x = Fin 0, vec_y = Fin 0, vec_z = Fin 0 \<rparr>"
    by (simp add: computeCoordinateOffset_def)
  have app: "scene ?app = scene MiningVizApp_new" "material_count ?app = 0"
    by (simp_all add: computeCoordinateOffset_def MiningVizApp_new_def split: prod.splits)
  have g: "group_by_rock (visibleBlocks_of [?b1, ?b2]) [] = Inr [(''granite'', [?b1, ?b2])]"
    by (simp add: visibleBlocks_of_def maxBlocks_def Object_prototype_keys_def)
  note b = createBlockModel_builds [OF g, of ?app]
  have l: "loadData (Inr ''x,y,z,dx,dy,dz,rock\<newline>A\<newline>B\<newline>0,0,0,1,1,1,granite\<newline>10,0,0,1,1,1,granite'') MiningVizApp_new
      = snd (createBlockModel [?b1, ?b2] ?app)"
    using b by (intro loadData_built [OF load_two_granite_blocks]) simp_all
  have s: "js_mul (js_sub (Fin 10) (Fin 0)) scaleFactor = Fin 7"
    by (simp add: js_sub_def scaleFactor_def)
  from b have sc: "scene (snd (createBlockModel [?b1, ?b2] ?app)) = scene ?app @
         [Group (concat (map (\<lambda>p. map (make_cube (coordinateOffset ?app) (fst p)) (snd (snd p)))
                      (enumerate (material_count ?app) (Object_entries [(''granite'', [?b1, ?b2])]))))]"
    and co: "coordinateOffset (snd (createBlockModel [?b1, ?b2] ?app)) = coordinateOffset ?app"
    by simp_all
  have cubes: "concat (map (\<lambda>p. map (make_cube (coordinateOffset ?app) (fst p)) (snd (snd p)))
                      (enumerate (material_count ?app) (Object_entries [(''granite'', [?b1, ?b2])])))
      = [Mesh (BoxGeometry (Fin 0.7) (Fin 1.4) (Fin 0.7))
               \<lparr> vec_x = Fin 0, vec_y = Fin 0, vec_z = Fin 0 \<rparr> 0,
         Mesh (BoxGeometry (Fin 0.7) (Fin 1.4) (Fin 0.7))
               \<lparr> vec_x = Fin 10, vec_y = Fin 0, vec_z = Fin 0 \<rparr> 0]"
    unfolding off app Object_entries_granite
    by (simp add: make_cube_expand js_sub_def)
  have scn: "scene MiningVizApp_new = [Group [Other, Other, Other], Other, Other, Other, Other]"
    by (simp add: MiningVizApp_new_def)
  show ?thesis
    unfolding l sc co cubes
    unfolding app off scn
    using s by simp
qed

theorem block_scaling_witness:
  "\<exists>cubes.
      scene (snd (createBlockModel
        [\<lparr> centroid_x = Fin 0, centroid_y = Fin 0, centroid_z = Fin 0,
           dim_x = Fin 1, dim_y = Fin 1, dim_z = Fin 1, rock = ''granite'' \<rparr>,
         \<lparr> centroid_x = Fin 10, centroid_y = Fin 4, centroid_z = Fin 3,
           dim_x = Fin 1, dim_y = Fin 2, dim_z = Fin 5, rock = ''granite'' \<rparr>]
        MiningVizApp_new))
      = scene MiningVizApp_new @ [Group cubes]
    \<and> (\<exists>m. Mesh (BoxGeometry (Fin 0.7) (Fin 7) (Fin 1.4))
                 \<lparr> vec_x = Fin 10, vec_y = Fin 6, vec_z = Fin 4 \<rparr> m \<in> set cubes)"
proof -
  let ?b1 = "\<lparr> centroid_x = Fin 0, centroid_y = Fin 0, centroid_z = Fin 0,
           dim_x = Fin 1, dim_y = Fin 1, dim_z = Fin 1, rock = ''granite'' \<rparr>"
  let ?b2 = "\<lparr> centroid_x = Fin 10, centroid_y = Fin 4, centroid_z = Fin 3,
           dim_x = Fin 1, dim_y = Fin 2, dim_z = Fin 5, rock = ''granite'' \<rparr>"
  have g: "group_by_rock (visibleBlocks_of [?b1, ?b2]) [] = Inr [(''granite'', [?b1, ?b2])]"
    by (simp add: visibleBlocks_of_def maxBlocks_def Object_prototype_keys_def)
  from createBlockModel_builds [OF g, of MiningVizApp_new]
  have "fst (createBlockModel [?b1, ?b2] MiningVizApp_new) = None" by simp
  then have h: "createBlockModel [?b1, ?b2] MiningVizApp_new =
      (None, snd (createBlockModel [?b1, ?b2] MiningVizApp_new))"
    by (simp add: prod_eq_iff)
  have v: "?b2 \<in> set (visibleBlocks_of [?b1, ?b2])"
    by (simp add: visibleBlocks_of_def maxBlocks_def)
  have o: "coordinateOffset MiningVizApp_new = \<lparr> vec_x = Fin 0, vec_y = Fin 0, vec_z = Fin 0 \<rparr>"
    by (simp add: MiningVizApp_new_def)
  from block_scaling [OF h] obtain cubes where
    sc: "scene (snd (createBlockModel [?b1, ?b2] MiningVizApp_new)) = scene MiningVizApp_new @ [Group cubes]"
    and cov: "\<forall>b\<in>set (visibleBlocks_of [?b1, ?b2]). \<exists>m.
          Mesh (BoxGeometry (js_mul (dim_x b) (Fin 0.7))
                            (js_mul (js_mul (dim_z b) (Fin 0.7)) (Fin 2))
                            (js_mul (dim_y b) (Fin 0.7)))
               \<lparr> vec_x = js_sub (centroid_x b) (vec_x (coordinateOffset MiningVizApp_new)),
                 vec_y = js_mul (js_sub (centroid_z b) (vec_z (coordinateOffset MiningVizApp_new))) (Fin 2),
                 vec_z = js_sub (centroid_y b) (vec_y (coordinateOffset MiningVizApp_new)) \<rparr>
               m \<in> set cubes"
    by blast
  from bspec [OF cov v] have "\<exists>m. Mesh (BoxGeometry (Fin 0.7) (Fin 7) (Fin 1.4))
                 \<lparr> vec_x = Fin 10, vec_y = Fin 6, vec_z = Fin 4 \<rparr> m \<in> set cubes"
    by (simp add: o js_sub_def)
  with sc show ?thesis by blast
qed

lemma replicate_pos: "0 < n \<Longrightarrow> replicate n x = x # replicate (n - 1) x"
  by (cases n) simp_all

text \<open>
  Claim C7 fails on the code for a dataset of more than 5000 records whose rock label
  is a property name of \<open>Object.prototype\<close>: with 5001 records labelled
  \<open>constructor\<close>, the grouping loop reads \<open>blocksByRock["constructor"]\<close>, gets the
  inherited function, skips the initialisation and throws a \<open>TypeError\<close> at \<open>push\<close>;
  no box is created and the scene stays as it was.
\<close>

theorem createBlockModel_constructor_label:
  "maxBlocks < length (replicate 5001
        \<lparr> centroid_x = Fin 1, centroid_y = Fin 2, centroid_z = Fin 3,
          dim_x = Fin 4, dim_y = Fin 5, dim_z = Fin 6, rock = ''constructor'' \<rparr>)
   \<and> fst (createBlockModel (replicate 5001
        \<lparr> centroid_x = Fin 1, centroid_y = Fin 2, centroid_z = Fin 3,
          dim_x = Fin 4, dim_y = Fin 5, dim_z = Fin 6, rock = ''constructor'' \<rparr>)
        MiningVizApp_new) = Some TypeError
   \<and> scene (snd (createBlockModel (replicate 5001
        \<lparr> centroid_x = Fin 1, centroid_y = Fin 2, centroid_z = Fin 3,
          dim_x = Fin 4, dim_y = Fin 5, dim_z = Fin 6, rock = ''constructor'' \<rparr>)
        MiningVizApp_new)) = [Group [Other, Other, Other], Other, Other, Other, Other]"
proof -
  let ?b = "\<lparr> centroid_x = Fin 1, centroid_y = Fin 2, centroid_z = Fin 3,
          dim_x = Fin 4, dim_y = Fin 5, dim_z = Fin 6, rock = ''constructor'' \<rparr>"
  have v: "visibleBlocks_of (replicate 5001 ?b) = ?b # replicate 4999 ?b"
    by (simp add: visibleBlocks_of_def maxBlocks_def replicate_pos [of 5000])
  have g: "group_by_rock (visibleBlocks_of (replicate 5001 ?b)) [] = Inl TypeError"
    unfolding v by (simp add: Object_prototype_keys_def)
  from createBlockModel_throws [OF g, of MiningVizApp_new]
  show ?thesis by (simp add: maxBlocks_def MiningVizApp_new_def)
qed

text \<open>
  The same exception from the text of a file: \<open>loadData\<close> catches it and logs
  \<open>Failed to load or parse data:\<close>; the scene is unchanged.
\<close>

lemma loadData_constructor_label:
  "scene (loadData (Inr ''x,y,z,dx,dy,dz,rock\<newline>A\<newline>B\<newline>1,2,3,4,5,6,constructor'') MiningVizApp_new)
     = [Group [Other, Other, Other], Other, Other, Other, Other]
   \<and> console_error (loadData (Inr ''x,y,z,dx,dy,dz,rock\<newline>A\<newline>B\<newline>1,2,3,4,5,6,constructor'') MiningVizApp_new)
     = [''Failed to load or parse data:'']"
proof -
  let ?b = "\<lparr> centroid_x = Fin 1, centroid_y = Fin 2, centroid_z = Fin 3,
          dim_x = Fin 4, dim_y = Fin 5, dim_z = Fin 6, rock = ''constructor'' \<rparr>"
  let ?app = "computeCoordinateOffset [?b] MiningVizApp_new"
  have p: "parseCSV ''x,y,z,dx,dy,dz,rock\<newline>A\<newline>B\<newline>1,2,3,4,5,6,constructor'' = [?b]"
    by code_simp
  have g: "group_by_rock (visibleBlocks_of [?b]) [] = Inl TypeError"
    by (simp add: visibleBlocks_of_def maxBlocks_def Object_prototype_keys_def)
  note t = createBlockModel_throws [OF g, of ?app]
  have a: "scene ?app = [Group [Other, Other, Other], Other, Other, Other, Other]"
    by (simp add: computeCoordinateOffset_def MiningVizApp_new_def split: prod.splits)
  have c: "console_error (snd (createBlockModel [?b] ?app)) = []"
    by (simp add: createBlockModel_def Let_def g computeCoordinateOffset_def
        MiningVizApp_new_def split: prod.splits)
  have "[?b] \<noteq> []" by simp
  from loadData_thrown [OF p this, of MiningVizApp_new TypeError] t a c
  show ?thesis by simp
qed






lemma mesh_shape_make_cube: "mesh_shape (make_cube off m b) = mesh_shape (make_cube off 0 b)"
  by (simp add: make_cube_def)

lemma map_mesh_shape_cubes:
  "map mesh_shape (concat (map (\<lambda>p. map (make_cube off (fst p)) (snd (snd p))) (enumerate n entries)))
     = map (\<lambda>b. mesh_shape (make_cube off 0 b)) (concat (map snd entries))"
proof (induction entries arbitrary: n)
  case Nil
  show ?case by simp
next
  case (Cons e entries)
  have "map mesh_shape (map (make_cube off n) (snd e)) =
      map (\<lambda>b. mesh_shape (make_cube off 0 b)) (snd e)"
    using mesh_shape_make_cube [of off n] by simp
  with Cons.IH [of "Suc n"] show ?case by simp
qed

text \<open>
  What holds of the visible-block cap: for more than 5000 records of which the first
  5000 carry no label that is a property name of \<open>Object.prototype\<close>, exactly 5000
  boxes are created, and their geometries and positions are those of the first 5000
  records (the boxes are added grouped by rock type, so as a multiset).
\<close>

lemma createBlockModel_prefix:
  assumes "maxBlocks < length blocks"
    and "\<forall>b\<in>set (take maxBlocks blocks). rock b \<notin> set Object_prototype_keys"
  shows "\<exists>cubes. fst (createBlockModel blocks app) = None
    \<and> scene (snd (createBlockModel blocks app)) = scene app @ [Group cubes]
    \<and> length cubes = 5000
    \<and> mset (map mesh_shape cubes) =
        mset (map (\<lambda>b. mesh_shape (make_cube (coordinateOffset app) 0 b)) (take 5000 blocks))"
proof -
  from assms(1) have v: "visibleBlocks_of blocks = take 5000 blocks"
    by (simp add: visibleBlocks_of_def maxBlocks_def)
  from assms(2) have "\<forall>b\<in>set (visibleBlocks_of blocks). rock b \<notin> set Object_prototype_keys"
    by (simp add: v maxBlocks_def)
  from group_by_rock_plain [OF this, of "[]"]
  obtain blocksByRock where g: "group_by_rock (visibleBlocks_of blocks) [] = Inr blocksByRock"
    by blast
  let ?entries = "Object_entries blocksByRock"
  let ?cubes = "concat (map (\<lambda>p. map (make_cube (coordinateOffset app) (fst p)) (snd (snd p)))
                      (enumerate (material_count app) ?entries))"
  note m = visible_blocks_grouped [OF g, unfolded v]
  from assms(1) have "length (take 5000 blocks) = 5000" by (simp add: maxBlocks_def)
  with m have l: "length ?cubes = 5000"
    using mset_eq_length [OF m] by (simp add: length_cubes)
  have "mset (map mesh_shape ?cubes) =
      image_mset (\<lambda>b. mesh_shape (make_cube (coordinateOffset app) 0 b))
        (mset (concat (map snd ?entries)))"
    by (simp add: map_mesh_shape_cubes)
  also have "\<dots> = mset (map (\<lambda>b. mesh_shape (make_cube (coordinateOffset app) 0 b)) (take 5000 blocks))"
    by (simp add: m)
  finally have s: "mset (map mesh_shape ?cubes) =
      mset (map (\<lambda>b. mesh_shape (make_cube (coordinateOffset app) 0 b)) (take 5000 blocks))" .
  from createBlockModel_builds [OF g, of app] l s show ?thesis by blast
qed

end
